theory Spec2Isabelle
  imports Complex_Main
begin

section \<open>Python values, errors and strings\<close>

text \<open>
  The embedding covers \<^verbatim>\<open>DatasetBase.make_batch\<close> of
  \<^verbatim>\<open>utils/dataset/loader_hierarchical.py\<close> and the utterance filter of
  \<^verbatim>\<open>Dataset.__init__\<close> in \<^verbatim>\<open>examples/swbd/data/load_dataset.py\<close>.
  Every exception the Python can raise is a value of \<open>error\<close>; a computation that may
  raise returns \<open>error + 'a\<close> with \<open>Inl\<close> for the exception.
\<close>

datatype error =
  TypeError | ValueError | IndexError | KeyError | IOError | ZeroDivisionError | AttributeError

text \<open>
  A cell of a label array. The source stores the pad value, integer label indices and,
  on evaluation splits, the raw transcript string in the same array, so a cell holds any
  of these Python values. What a cell holds after an assignment depends on the element
  type of the array: see \<open>coerce\<close> below.
\<close>

datatype pyval = PyNone | PyInt int | PyStr string

definition and_then :: "error + 'a \<Rightarrow> ('a \<Rightarrow> error + 'b) \<Rightarrow> error + 'b" where
  "and_then m f = (case m of Inl e \<Rightarrow> Inl e | Inr x \<Rightarrow> f x)"

text \<open>\<^verbatim>\<open>s.split(c)\<close> for a one-character separator: always at least one piece.\<close>

fun split_on :: "char \<Rightarrow> string \<Rightarrow> string list" where
  "split_on c [] = [[]]"
| "split_on c (x # xs) =
     (if x = c then [] # split_on c xs
      else (let ws = split_on c xs in (x # hd ws) # tl ws))"

text \<open>
  \<^verbatim>\<open>int(s)\<close> on a string: surrounding whitespace is stripped, an optional sign
  follows, then at least one decimal digit; anything else raises ValueError. (Digit
  grouping with underscores, which newer Pythons accept, counts as a ValueError here.)
\<close>

definition is_space :: "char \<Rightarrow> bool" where
  "is_space c = (of_char c \<in> {9, 10, 11, 12, 13, 32 :: nat})"

definition is_digit :: "char \<Rightarrow> bool" where
  "is_digit c = (48 \<le> (of_char c :: nat) \<and> (of_char c :: nat) \<le> 57)"

definition strip :: "string \<Rightarrow> string" where
  "strip s = rev (dropWhile is_space (rev (dropWhile is_space s)))"

definition digits_value :: "string \<Rightarrow> int" where
  "digits_value d = foldl (\<lambda>a c. 10 * a + (int (of_char c) - 48)) 0 d"

definition py_int :: "string \<Rightarrow> error + int" where
  "py_int s =
     (let t = strip s;
          neg = (t \<noteq> [] \<and> hd t = CHR ''-'');
          d = (if t \<noteq> [] \<and> (hd t = CHR ''-'' \<or> hd t = CHR ''+'') then tl t else t)
      in if d \<noteq> [] \<and> list_all is_digit d
         then Inr (if neg then - digits_value d else digits_value d)
         else Inl ValueError)"

text \<open>\<^verbatim>\<open>list(map(int, s.split(' ')))\<close>: the first token that does not parse raises.\<close>

fun map_int :: "string list \<Rightarrow> error + int list" where
  "map_int [] = Inr []"
| "map_int (w # ws) =
     and_then (py_int w) (\<lambda>n. and_then (map_int ws) (\<lambda>ns. Inr (n # ns)))"

text \<open>\<^verbatim>\<open>os.path.basename\<close>: what follows the last slash.\<close>

definition basename :: "string \<Rightarrow> string" where
  "basename p = last (split_on CHR ''/'' p)"

text \<open>\<^verbatim>\<open>max(xs)\<close>: ValueError on an empty sequence.\<close>

fun py_max :: "('a::linorder) list \<Rightarrow> error + 'a" where
  "py_max [] = Inl ValueError"
| "py_max (x # xs) = Inr (foldl max x xs)"

text \<open>
  \<^verbatim>\<open>math.ceil(a / b)\<close> under true division, for a positive divisor, on integers.
\<close>

definition ceil_div :: "int \<Rightarrow> nat \<Rightarrow> int" where
  "ceil_div a b = - ((- a) div int b)"

section \<open>The Corpus Index and the dataset instance\<close>

record utterance =
  frame_num :: int
  input_path :: string
  transcript :: string

text \<open>
  A pandas DataFrame: the rows in table order, each with its index label. Filtering and
  sorting keep the labels, and \<^verbatim>\<open>df[col][labels]\<close> looks rows up by label.
  \<^verbatim>\<open>read_csv\<close> gives every row its own label.
\<close>

type_synonym dataframe = "(int \<times> utterance) list"

text \<open>\<^verbatim>\<open>df[col][data_indices]\<close>: KeyError on a label the frame does not have.\<close>

fun series :: "dataframe \<Rightarrow> (utterance \<Rightarrow> 'b) \<Rightarrow> int list \<Rightarrow> error + 'b list" where
  "series d col [] = Inr []"
| "series d col (i # is) =
     (case map_of d i of
        None \<Rightarrow> Inl KeyError
      | Some u \<Rightarrow> and_then (series d col is) (\<lambda>vs. Inr (col u # vs)))"

text \<open>
  The attributes of the dataset instance that \<^verbatim>\<open>make_batch\<close> reads. The pad values
  and the SOS/EOS indices are set by the base class from the vocabulary file, which is
  not part of the sources: they are parameters here. A pad value is an index or Python's
  \<^verbatim>\<open>None\<close>. \<open>input_size\<close> is \<open>None\<close> until the attribute exists
  (\<^verbatim>\<open>hasattr(self, 'input_size')\<close>). The stacking parameters are counts.
\<close>

record dataset =
  df :: dataframe
  df_sub :: dataframe
  is_test :: bool
  model_type :: string
  save_format :: string
  num_stack :: nat
  num_skip :: nat
  splice :: nat
  pad_value :: "int option"
  pad_value_sub :: "int option"
  sos_index :: int
  eos_index :: int
  sos_index_sub :: int
  eos_index_sub :: int
  input_size :: "nat option"

section \<open>Feature arrays\<close>

text \<open>
  A two-dimensional array of shape \<open>(length (rows m), ncols m)\<close>. The element type is
  left open (float32 in the source); allocation needs its zero.
\<close>

record 'a ndarray =
  ncols :: nat
  rows :: "'a list list"

definition is_rect :: "'a ndarray \<Rightarrow> bool" where
  "is_rect m = list_all (\<lambda>r. length r = ncols m) (rows m)"

record 'a storage =
  npy_files :: "string \<Rightarrow> 'a ndarray option"
  htk_files :: "string \<Rightarrow> 'a ndarray option"

text \<open>
  Modelled from the spec: \<^verbatim>\<open>load_npy\<close> and \<^verbatim>\<open>load_htk\<close> of the base class
  (utils/dataset/base.py is not in the sources). The Feature Loader
  "reads a single utterance's acoustic feature array from a persisted numpy/HTK file
  given a path"; "a missing or corrupt feature file is a fatal error". A stored array
  is rectangular.
\<close>

definition load_npy :: "'a storage \<Rightarrow> string \<Rightarrow> error + 'a ndarray" where
  "load_npy st path =
     (case npy_files st path of
        None \<Rightarrow> Inl IOError
      | Some m \<Rightarrow> if is_rect m then Inr m else Inl IOError)"

definition load_htk :: "'a storage \<Rightarrow> string \<Rightarrow> error + 'a ndarray" where
  "load_htk st path =
     (case htk_files st path of
        None \<Rightarrow> Inl IOError
      | Some m \<Rightarrow> if is_rect m then Inr m else Inl IOError)"

text \<open>
  Modelled from the spec: \<^verbatim>\<open>stack_frame\<close> (utils/io/inputs/frame_stacking.py is not
  in the sources). "Partitions the time axis into consecutive groups of num_stack
  frames advancing by num_skip per group, concatenating each group's frames along the
  feature axis. The final group, if shorter than num_stack frames remain, is
  zero-padded up to num_stack. Output time length T' = ceil(T / num_skip)."
\<close>

definition stack_frame :: "('a::zero) ndarray \<Rightarrow> nat \<Rightarrow> nat \<Rightarrow> 'a ndarray" where
  "stack_frame feat nstack nskip =
     (let frame = (\<lambda>t. if t < length (rows feat) then rows feat ! t
                        else replicate (ncols feat) 0)
      in \<lparr>ncols = ncols feat * nstack,
          rows = map (\<lambda>g. concat (map (\<lambda>k. frame (g * nskip + k)) [0..<nstack]))
                   [0..<(length (rows feat) + nskip - 1) div nskip]\<rparr>)"

text \<open>
  Modelled from the spec: \<^verbatim>\<open>do_splice\<close> (utils/io/inputs/splicing.py is not in the
  sources). "For each output time step, concatenates a symmetric window of
  splice_width frames centered on that step (window replicated/clamped at sequence
  boundaries rather than reading out of bounds) along the feature axis"; the output is
  \<open>array[T', F' * splice_width]\<close>. How the window is laid out inside a row "in units
  of num_stack blocks" is not fixed by the spec: the window is concatenated frame by
  frame.
\<close>

definition do_splice :: "'a ndarray \<Rightarrow> nat \<Rightarrow> nat \<Rightarrow> 'a ndarray" where
  "do_splice feat width nstack =
     (let T = length (rows feat);
          window = (\<lambda>t k. rows feat ! nat (min (int T - 1)
                         (max 0 (int t + int k - int (width div 2)))))
      in \<lparr>ncols = ncols feat * width,
          rows = map (\<lambda>t. concat (map (window t) [0..<width])) [0..<T]\<rparr>)"

section \<open>numpy allocation and assignment\<close>

text \<open>\<^verbatim>\<open>np.zeros((t, w))\<close>, one example's plane of the inputs tensor.\<close>

definition np_zeros :: "nat \<Rightarrow> nat \<Rightarrow> ('a::zero) ndarray" where
  "np_zeros t w = \<lparr>ncols = w, rows = replicate t (replicate w 0)\<rparr>"

text \<open>
  \<^verbatim>\<open>a[:k, :] = v\<close> on one plane. The slice has \<open>min k (length (rows a))\<close> rows.
  numpy broadcasts \<open>v\<close> to the slice: each dimension of \<open>v\<close> must equal the slice's or
  be 1, otherwise the assignment raises ValueError.
\<close>

definition broadcast_row :: "nat \<Rightarrow> 'a list \<Rightarrow> 'a list" where
  "broadcast_row w r = (if length r = w then r else replicate w (hd r))"

definition setitem_prefix :: "'a ndarray \<Rightarrow> nat \<Rightarrow> 'a ndarray \<Rightarrow> error + 'a ndarray" where
  "setitem_prefix a k v =
     (let n = min k (length (rows a));
          r = length (rows v)
      in if (r = n \<or> r = 1) \<and> (ncols v = ncols a \<or> ncols v = 1)
         then Inr (a\<lparr>rows := map (broadcast_row (ncols a))
                              (if r = n then rows v else replicate n (hd (rows v)))
                            @ drop n (rows a)\<rparr>)
         else Inl ValueError)"

text \<open>
  The label arrays are built by \<^verbatim>\<open>np.array([[pad] * L] * B)\<close> with no dtype, so numpy
  takes their element type from the pad value: an array of Python objects when the pad
  value is \<^verbatim>\<open>None\<close>, an integer array when it is an index. \<open>pad_cell\<close> is the cell
  such an array starts with. \<open>coerce\<close> is what an assignment stores: an object array
  keeps the value as it is; an integer array keeps an integer, converts a string with
  \<^verbatim>\<open>int()\<close> (ValueError when it is not a numeral) and refuses \<^verbatim>\<open>None\<close>. Indices
  are taken to fit the 64 bits of an integer cell.
\<close>

definition pad_cell :: "int option \<Rightarrow> pyval" where
  "pad_cell p = (case p of None \<Rightarrow> PyNone | Some k \<Rightarrow> PyInt k)"

definition coerce :: "int option \<Rightarrow> pyval \<Rightarrow> error + pyval" where
  "coerce p v =
     (case p of
        None \<Rightarrow> Inr v
      | Some k \<Rightarrow>
          (case v of
             PyInt n \<Rightarrow> Inr (PyInt n)
           | PyStr s \<Rightarrow> and_then (py_int s) (\<lambda>n. Inr (PyInt n))
           | PyNone \<Rightarrow> Inl TypeError))"

fun coerce_all :: "int option \<Rightarrow> pyval list \<Rightarrow> error + pyval list" where
  "coerce_all p [] = Inr []"
| "coerce_all p (v # vs) =
     and_then (coerce p v) (\<lambda>c. and_then (coerce_all p vs) (\<lambda>cs. Inr (c # cs)))"

text \<open>
  \<^verbatim>\<open>row[k] = v\<close> on a row of a label array whose pad value is \<open>p\<close>: IndexError out
  of range, then the conversion of \<open>v\<close>.
\<close>

definition setitem :: "int option \<Rightarrow> pyval list \<Rightarrow> nat \<Rightarrow> pyval \<Rightarrow> error + pyval list" where
  "setitem p row k v =
     (if k < length row then and_then (coerce p v) (\<lambda>c. Inr (row[k := c]))
      else Inl IndexError)"

text \<open>
  \<^verbatim>\<open>row[lo:hi] = vs\<close> on such a row: the values are converted, the slice is clipped
  to the row, and the values must have the slice's length, or length 1 (broadcast),
  otherwise ValueError.
\<close>

definition setslice ::
  "int option \<Rightarrow> pyval list \<Rightarrow> nat \<Rightarrow> nat \<Rightarrow> pyval list \<Rightarrow> error + pyval list" where
  "setslice p row lo hi vs =
     and_then (coerce_all p vs) (\<lambda>cs.
       let l = min lo (length row);
           h = max l (min hi (length row))
       in if length cs = h - l then Inr (take l row @ cs @ drop h row)
          else if length cs = 1 then Inr (take l row @ replicate (h - l) (hd cs) @ drop h row)
          else Inl ValueError)"

section \<open>Batch construction\<close>

text \<open>
  The seven arrays \<^verbatim>\<open>make_batch\<close> returns. \<open>inputs\<close> is the tensor
  \<open>[B, T_max, width]\<close> as one plane per example.
\<close>

record 'a batch =
  inputs :: "'a ndarray list"
  labels :: "pyval list list"
  labels_sub :: "pyval list list"
  inputs_seq_len :: "nat list"
  labels_seq_len :: "nat list"
  labels_seq_len_sub :: "nat list"
  input_names :: "string list"

text \<open>Lines 102-107: the loader is chosen by \<^verbatim>\<open>save_format\<close>.\<close>

definition load_data :: "dataset \<Rightarrow> 'a storage \<Rightarrow> string \<Rightarrow> error + 'a ndarray" where
  "load_data ds st path =
     (if save_format ds = ''numpy'' then load_npy st path
      else if save_format ds = ''htk'' then load_htk st path
      else Inl TypeError)"

text \<open>
  Lines 63-71: the feature width is computed from the first utterance of the batch
  only while the instance has no \<^verbatim>\<open>input_size\<close> attribute.
\<close>

definition cache_input_size :: "dataset \<Rightarrow> 'a storage \<Rightarrow> string list \<Rightarrow> error + dataset" where
  "cache_input_size ds st input_path_list =
     (case input_size ds of
        Some n \<Rightarrow> Inr ds
      | None \<Rightarrow>
          and_then
            (if save_format ds = ''numpy'' then
               (case input_path_list of
                  [] \<Rightarrow> Inl IndexError
                | p # ps \<Rightarrow> and_then (load_npy st p) (\<lambda>m. Inr (ncols m)))
             else if save_format ds = ''htk'' then
               (case input_path_list of
                  [] \<Rightarrow> Inl IndexError
                | p # ps \<Rightarrow> and_then (load_htk st p) (\<lambda>m. Inr (ncols m)))
             else Inl TypeError)
            (\<lambda>w. Inr (ds\<lparr>input_size := Some (w * num_stack ds * splice ds)\<rparr>)))"

text \<open>Lines 101-117: load, stack, splice, write the plane's prefix, record the length.\<close>

definition set_inputs ::
  "dataset \<Rightarrow> ('a::zero) storage \<Rightarrow> string list \<Rightarrow> 'a batch \<Rightarrow> nat \<Rightarrow> error + 'a batch" where
  "set_inputs ds st input_path_list b i_batch =
     and_then (load_data ds st (input_path_list ! i_batch)) (\<lambda>raw.
       let stacked = stack_frame raw (num_stack ds) (num_skip ds);
           frame_num = length (rows stacked);
           data_i = do_splice stacked (splice ds) (num_stack ds)
       in and_then (setitem_prefix (inputs b ! i_batch) frame_num data_i) (\<lambda>plane.
            Inr (b\<lparr>inputs := (inputs b)[i_batch := plane],
                   inputs_seq_len := (inputs_seq_len b)[i_batch := frame_num]\<rparr>)))"

text \<open>
  Lines 119-121: on a test split the raw transcripts are assigned to column 0 of the
  label rows, each array converting the string to its element type.
\<close>

definition set_labels_test :: "dataset \<Rightarrow> int list \<Rightarrow> 'a batch \<Rightarrow> nat \<Rightarrow> error + 'a batch" where
  "set_labels_test ds data_indices b i_batch =
     (case map_of (df ds) (data_indices ! i_batch) of
        None \<Rightarrow> Inl KeyError
      | Some u \<Rightarrow>
          and_then (setitem (pad_value ds) (labels b ! i_batch) 0 (PyStr (transcript u))) (\<lambda>row.
            (case map_of (df_sub ds) (data_indices ! i_batch) of
               None \<Rightarrow> Inl KeyError
             | Some u_sub \<Rightarrow>
                 and_then (setitem (pad_value_sub ds) (labels_sub b ! i_batch) 0
                             (PyStr (transcript u_sub)))
                   (\<lambda>row_sub.
                      Inr (b\<lparr>labels := (labels b)[i_batch := row],
                             labels_sub := (labels_sub b)[i_batch := row_sub]\<rparr>)))))"

text \<open>
  Lines 130-132 (and 136-138 for the sub task): \<^verbatim>\<open>row[0] = sos\<close>,
  \<^verbatim>\<open>row[1:label_num + 1] = indices\<close>, \<^verbatim>\<open>row[label_num + 1] = eos\<close>.
\<close>

definition write_sos_eos ::
  "int option \<Rightarrow> pyval list \<Rightarrow> int \<Rightarrow> int list \<Rightarrow> int \<Rightarrow> error + pyval list" where
  "write_sos_eos p row sos indices eos =
     (let label_num = length indices in
      and_then (setitem p row 0 (PyInt sos)) (\<lambda>r1.
      and_then (setslice p r1 1 (label_num + 1) (map PyInt indices)) (\<lambda>r2.
      setitem p r2 (label_num + 1) (PyInt eos))))"

definition set_labels_attention ::
  "dataset \<Rightarrow> int list \<Rightarrow> int list \<Rightarrow> 'a batch \<Rightarrow> nat \<Rightarrow> error + 'a batch" where
  "set_labels_attention ds indices indices_sub b i_batch =
     and_then (write_sos_eos (pad_value ds) (labels b ! i_batch) (sos_index ds) indices
                 (eos_index ds)) (\<lambda>row.
     and_then (write_sos_eos (pad_value_sub ds) (labels_sub b ! i_batch) (sos_index_sub ds)
                 indices_sub (eos_index_sub ds)) (\<lambda>row_sub.
       Inr (b\<lparr>labels := (labels b)[i_batch := row],
              labels_seq_len := (labels_seq_len b)[i_batch := length indices + 2],
              labels_sub := (labels_sub b)[i_batch := row_sub],
              labels_seq_len_sub := (labels_seq_len_sub b)[i_batch := length indices_sub + 2]\<rparr>)))"

text \<open>Lines 141-146: \<^verbatim>\<open>row[0:label_num] = indices\<close>, no SOS/EOS.\<close>

definition set_labels_ctc ::
  "dataset \<Rightarrow> int list \<Rightarrow> int list \<Rightarrow> 'a batch \<Rightarrow> nat \<Rightarrow> error + 'a batch" where
  "set_labels_ctc ds indices indices_sub b i_batch =
     and_then (setslice (pad_value ds) (labels b ! i_batch) 0 (length indices)
                 (map PyInt indices)) (\<lambda>row.
     and_then (setslice (pad_value_sub ds) (labels_sub b ! i_batch) 0 (length indices_sub)
                 (map PyInt indices_sub))
       (\<lambda>row_sub.
          Inr (b\<lparr>labels := (labels b)[i_batch := row],
                 labels_seq_len := (labels_seq_len b)[i_batch := length indices],
                 labels_sub := (labels_sub b)[i_batch := row_sub],
                 labels_seq_len_sub := (labels_seq_len_sub b)[i_batch := length indices_sub]\<rparr>)))"

text \<open>Lines 100-148: the body of the loop over \<^verbatim>\<open>range(len(data_indices))\<close>.\<close>

definition set_values ::
  "dataset \<Rightarrow> ('a::zero) storage \<Rightarrow> int list \<Rightarrow> string list \<Rightarrow> string list \<Rightarrow> string list
     \<Rightarrow> 'a batch \<Rightarrow> nat \<Rightarrow> error + 'a batch" where
  "set_values ds st data_indices input_path_list str_indices_list str_indices_list_sub b i_batch =
     and_then (set_inputs ds st input_path_list b i_batch) (\<lambda>b1.
       if is_test ds then set_labels_test ds data_indices b1 i_batch
       else
         and_then (map_int (split_on CHR '' '' (str_indices_list ! i_batch))) (\<lambda>indices.
         and_then (map_int (split_on CHR '' '' (str_indices_list_sub ! i_batch))) (\<lambda>indices_sub.
           if model_type ds = ''hierarchical_attention''
           then set_labels_attention ds indices indices_sub b1 i_batch
           else if model_type ds = ''hierarchical_ctc''
           then set_labels_ctc ds indices indices_sub b1 i_batch
           else Inl TypeError)))"

fun for_range :: "('s \<Rightarrow> nat \<Rightarrow> error + 's) \<Rightarrow> nat list \<Rightarrow> 's \<Rightarrow> error + 's" where
  "for_range body [] s = Inr s"
| "for_range body (i # is) s = and_then (body s i) (for_range body is)"

text \<open>
  Lines 84-97: the arrays before the loop, for \<open>n\<close> examples: zero planes of
  \<open>max_frame_num\<close> rows and \<open>width\<close> columns, label rows filled with each task's
  pad value, zero lengths, and the names taken from the input paths.
\<close>

definition init_batch ::
  "dataset \<Rightarrow> nat \<Rightarrow> nat \<Rightarrow> nat \<Rightarrow> nat \<Rightarrow> nat \<Rightarrow> string list \<Rightarrow> ('a::zero) batch" where
  "init_batch ds n max_frame_num width max_seq_len max_seq_len_sub paths =
     \<lparr>inputs = replicate n (np_zeros max_frame_num width),
      labels = replicate n (replicate max_seq_len (pad_cell (pad_value ds))),
      labels_sub = replicate n (replicate max_seq_len_sub (pad_cell (pad_value_sub ds))),
      inputs_seq_len = replicate n 0,
      labels_seq_len = replicate n 0,
      labels_seq_len_sub = replicate n 0,
      input_names = map (\<lambda>path. hd (split_on CHR ''.'' (basename path))) paths\<rparr>"

text \<open>
  Lines 73-160. The division by \<^verbatim>\<open>num_skip\<close> raises on zero, \<^verbatim>\<open>np.zeros\<close>
  refuses a negative dimension, and the width of the allocated planes is
  \<^verbatim>\<open>self.input_size * self.splice\<close>.
\<close>

definition build_batch ::
  "dataset \<Rightarrow> ('a::zero) storage \<Rightarrow> int list \<Rightarrow> string list \<Rightarrow> string list \<Rightarrow> string list
     \<Rightarrow> error + 'a batch" where
  "build_batch ds st data_indices input_path_list str_indices_list str_indices_list_sub =
     and_then (series (df ds) frame_num data_indices) (\<lambda>frame_nums.
     and_then (py_max frame_nums) (\<lambda>m.
     if num_skip ds = 0 then Inl ZeroDivisionError
     else
       let max_frame_num = ceil_div m (num_skip ds) in
       and_then (py_max (map (\<lambda>x. length (split_on CHR '' '' x)) str_indices_list)) (\<lambda>l.
       and_then (py_max (map (\<lambda>x. length (split_on CHR '' '' x)) str_indices_list_sub)) (\<lambda>l_sub.
         let max_seq_len = l + 2;
             max_seq_len_sub = l_sub + 2
         in (case input_size ds of
               None \<Rightarrow> Inl AttributeError
             | Some isize \<Rightarrow>
                 if max_frame_num < 0 then Inl ValueError
                 else
                   and_then (series (df ds) input_path data_indices) (\<lambda>paths.
                     for_range
                       (set_values ds st data_indices input_path_list str_indices_list
                          str_indices_list_sub)
                       [0..<length data_indices]
                       (init_batch ds (length data_indices) (nat max_frame_num)
                          (isize * splice ds) max_seq_len max_seq_len_sub paths)))))))"

text \<open>
  \<^verbatim>\<open>DatasetBase.make_batch\<close>: the instance after the call (the attribute
  \<^verbatim>\<open>input_size\<close> stays set when a later statement raises) and the exception or
  the batch.
\<close>

definition make_batch ::
  "dataset \<Rightarrow> ('a::zero) storage \<Rightarrow> int list \<Rightarrow> dataset \<times> (error + 'a batch)" where
  "make_batch ds st data_indices =
     (case series (df ds) input_path data_indices of
        Inl e \<Rightarrow> (ds, Inl e)
      | Inr input_path_list \<Rightarrow>
     (case series (df ds) transcript data_indices of
        Inl e \<Rightarrow> (ds, Inl e)
      | Inr str_indices_list \<Rightarrow>
     (case series (df_sub ds) transcript data_indices of
        Inl e \<Rightarrow> (ds, Inl e)
      | Inr str_indices_list_sub \<Rightarrow>
     (case cache_input_size ds st input_path_list of
        Inl e \<Rightarrow> (ds, Inl e)
      | Inr ds1 \<Rightarrow>
          (ds1, build_batch ds1 st data_indices input_path_list str_indices_list
                  str_indices_list_sub)))))"

section \<open>Views of a batch used in the statements\<close>

text \<open>Everything the batch holds for example \<open>i\<close>.\<close>

definition example ::
  "'a batch \<Rightarrow> nat \<Rightarrow> 'a ndarray \<times> nat \<times> pyval list \<times> nat \<times> pyval list \<times> nat" where
  "example b i =
     (inputs b ! i, inputs_seq_len b ! i, labels b ! i, labels_seq_len b ! i,
      labels_sub b ! i, labels_seq_len_sub b ! i)"

definition has_size :: "'a batch \<Rightarrow> nat \<Rightarrow> bool" where
  "has_size b n =
     (length (inputs b) = n \<and> length (inputs_seq_len b) = n \<and> length (labels b) = n \<and>
      length (labels_seq_len b) = n \<and> length (labels_sub b) = n \<and>
      length (labels_seq_len_sub b) = n)"

text \<open>A loop step for example \<open>i\<close> leaves the names, the sizes and the other examples alone.\<close>

definition untouched :: "'a batch \<Rightarrow> 'a batch \<Rightarrow> nat \<Rightarrow> bool" where
  "untouched b b' i =
     (input_names b' = input_names b \<and> (\<forall>n. has_size b' n = has_size b n) \<and>
      (\<forall>j. j \<noteq> i \<longrightarrow> example b' j = example b j))"

text \<open>Lines 110-114 as one function: the array written into the inputs tensor.\<close>

definition transformed :: "dataset \<Rightarrow> ('a::zero) ndarray \<Rightarrow> 'a ndarray" where
  "transformed ds raw =
     do_splice (stack_frame raw (num_stack ds) (num_skip ds)) (splice ds) (num_stack ds)"

text \<open>The manifest columns of an index subset, and the token count of a transcript.\<close>

definition frame_nums :: "dataset \<Rightarrow> int list \<Rightarrow> int list" where
  "frame_nums ds data_indices = map (\<lambda>i. frame_num (the (map_of (df ds) i))) data_indices"

definition token_count :: "string \<Rightarrow> nat" where
  "token_count x = length (split_on CHR '' '' x)"

definition token_counts :: "dataframe \<Rightarrow> int list \<Rightarrow> nat list" where
  "token_counts d data_indices =
     map (\<lambda>i. token_count (transcript (the (map_of d i)))) data_indices"

section \<open>Corpus Index construction: the utterance filter\<close>

text \<open>Python's \<^verbatim>\<open>sub in s\<close> on strings.\<close>

definition contains :: "string \<Rightarrow> string \<Rightarrow> bool" where
  "contains sub s = list_ex (\<lambda>k. take (length sub) (drop k s) = sub) [0..<Suc (length s)]"

text \<open>
  \<^verbatim>\<open>Dataset.__init__\<close>, lines 56 and 84-96 of load_dataset.py: unless the split is a
  test split (\<^verbatim>\<open>'eval' in data_type\<close>), short-but-long utterances are removed with a
  threshold chosen by \<^verbatim>\<open>'word' in label_type\<close>, then utterances above 1580 frames,
  and the \<^verbatim>\<open>dev\<close> split keeps the first 4000 rows of what is left. The sort that
  follows (lines 98-102) is pandas' \<^verbatim>\<open>sort_values\<close> and is not part of this model.
\<close>

definition remove_inappropriate :: "string \<Rightarrow> string \<Rightarrow> dataframe \<Rightarrow> dataframe" where
  "remove_inappropriate data_type label_type d =
     (if \<not> contains ''eval'' data_type then
        (let d1 = (if contains ''word'' label_type
                   then filter (\<lambda>(i, x). \<not> (length (split_on CHR '' '' (transcript x)) \<le> 3
                                           \<and> frame_num x \<ge> 1000)) d
                   else filter (\<lambda>(i, x). \<not> (length (split_on CHR '' '' (transcript x)) \<le> 24
                                           \<and> frame_num x \<ge> 1000)) d);
             d2 = filter (\<lambda>(i, x). frame_num x \<le> 1580) d1
         in if data_type = ''dev'' then take 4000 d2 else d2)
      else d)"

text \<open>The drop condition in the words of the specification.\<close>

definition drop_condition :: "string \<Rightarrow> utterance \<Rightarrow> bool" where
  "drop_condition label_type x =
     ((token_count (transcript x) \<le> (if contains ''word'' label_type then 3 else 24)
         \<and> frame_num x \<ge> 1000)
      \<or> frame_num x > 1580)"

section \<open>A small corpus for concrete runs\<close>

definition demo_df :: dataframe where
  "demo_df =
     [(0, \<lparr>frame_num = 3, input_path = ''/d/a_1.npy'', transcript = ''5 9 2''\<rparr>),
      (1, \<lparr>frame_num = 2, input_path = ''/d/b.npy'', transcript = ''7''\<rparr>)]"

definition demo_df_sub :: dataframe where
  "demo_df_sub =
     [(0, \<lparr>frame_num = 3, input_path = ''/d/a_1.npy'', transcript = ''1 2 3 4''\<rparr>),
      (1, \<lparr>frame_num = 2, input_path = ''/d/b.npy'', transcript = ''8 8''\<rparr>)]"

definition demo_ds :: dataset where
  "demo_ds =
     \<lparr>df = demo_df, df_sub = demo_df_sub, is_test = False,
      model_type = ''hierarchical_attention'', save_format = ''numpy'',
      num_stack = 2, num_skip = 2, splice = 1,
      pad_value = Some 0, pad_value_sub = Some (- 1),
      sos_index = 1, eos_index = 2, sos_index_sub = 30, eos_index_sub = 31,
      input_size = None\<rparr>"

definition demo_files :: "int storage" where
  "demo_files =
     \<lparr>npy_files = map_of
        [(''/d/a_1.npy'', \<lparr>ncols = 2, rows = [[1, 2], [3, 4], [5, 6]]\<rparr>),
         (''/d/b.npy'', \<lparr>ncols = 2, rows = [[7, 8], [9, 10]]\<rparr>),
         (''/d/c.npy'', \<lparr>ncols = 2, rows = [[11, 12]]\<rparr>)],
      htk_files = Map.empty\<rparr>"

text \<open>A manifest of \<open>n\<close> copies of one utterance, numbered from 0.\<close>

definition numbered :: "nat \<Rightarrow> utterance \<Rightarrow> dataframe" where
  "numbered n u = map (\<lambda>i. (int i, u)) [0..<n]"

definition short_utt :: utterance where
  "short_utt = \<lparr>frame_num = 100, input_path = ''/d/a_1.npy'', transcript = ''5 9 2 7''\<rparr>"

text \<open>The batch the attention configuration builds from both utterances.\<close>

definition demo_batch :: "int batch" where
  "demo_batch =
     \<lparr>inputs =
         [\<lparr>ncols = 4, rows = [[1, 2, 3, 4], [5, 6, 0, 0]]\<rparr>,
          \<lparr>ncols = 4, rows = [[7, 8, 9, 10], [0, 0, 0, 0]]\<rparr>],
      labels =
         [[PyInt 1, PyInt 5, PyInt 9, PyInt 2, PyInt 2],
          [PyInt 1, PyInt 7, PyInt 2, PyInt 0, PyInt 0]],
      labels_sub =
         [[PyInt 30, PyInt 1, PyInt 2, PyInt 3, PyInt 4, PyInt 31],
          [PyInt 30, PyInt 8, PyInt 8, PyInt 31, PyInt (- 1), PyInt (- 1)]],
      inputs_seq_len = [2, 1], labels_seq_len = [5, 3],
      labels_seq_len_sub = [6, 4], input_names = [''a_1'', ''b'']\<rparr>"

text \<open>
  An evaluation split: raw text transcripts, and \<open>None\<close> as the pad value of both tasks.
\<close>

definition demo_eval_ds :: dataset where
  "demo_eval_ds =
     \<lparr>df = [(0, \<lparr>frame_num = 3, input_path = ''/d/a_1.npy'', transcript = ''hello world''\<rparr>)],
      df_sub = [(0, \<lparr>frame_num = 3, input_path = ''/d/a_1.npy'', transcript = ''h e l l o''\<rparr>)],
      is_test = True,
      model_type = ''hierarchical_attention'', save_format = ''numpy'',
      num_stack = 2, num_skip = 2, splice = 1,
      pad_value = None, pad_value_sub = None,
      sos_index = 1, eos_index = 2, sos_index_sub = 30, eos_index_sub = 31,
      input_size = None\<rparr>"

definition demo_eval_batch :: "int batch" where
  "demo_eval_batch =
     \<lparr>inputs = [\<lparr>ncols = 4, rows = [[1, 2, 3, 4], [5, 6, 0, 0]]\<rparr>],
      labels = [[PyStr ''hello world'', PyNone, PyNone, PyNone]],
      labels_sub = [[PyStr ''h e l l o'', PyNone, PyNone, PyNone, PyNone, PyNone, PyNone]],
      inputs_seq_len = [2], labels_seq_len = [0],
      labels_seq_len_sub = [0], input_names = [''a_1'']\<rparr>"

text \<open>A manifest row whose \<open>frame_num\<close> is 0 although its file holds one frame.\<close>

definition stale_ds :: dataset where
  "stale_ds =
     \<lparr>df = [(0, \<lparr>frame_num = 0, input_path = ''/d/c.npy'', transcript = ''5''\<rparr>)],
      df_sub = [(0, \<lparr>frame_num = 0, input_path = ''/d/c.npy'', transcript = ''8''\<rparr>)],
      is_test = False,
      model_type = ''hierarchical_ctc'', save_format = ''numpy'',
      num_stack = 1, num_skip = 1, splice = 1,
      pad_value = Some 0, pad_value_sub = Some 0,
      sos_index = 1, eos_index = 2, sos_index_sub = 30, eos_index_sub = 31,
      input_size = None\<rparr>"

text \<open>The batch built from it: the time dimension of \<open>inputs\<close> is 0.\<close>

definition stale_batch :: "int batch" where
  "stale_batch =
     \<lparr>inputs = [\<lparr>ncols = 2, rows = []\<rparr>],
      labels = [[PyInt 5, PyInt 0, PyInt 0]],
      labels_sub = [[PyInt 8, PyInt 0, PyInt 0]],
      inputs_seq_len = [1], labels_seq_len = [1], labels_seq_len_sub = [1],
      input_names = [''c'']\<rparr>"

text \<open>Two misconfigured instances: an unknown save format, an unknown model type.\<close>

definition demo_hdf5_ds :: dataset where
  "demo_hdf5_ds = demo_ds\<lparr>save_format := ''hdf5''\<rparr>"

definition demo_flat_ds :: dataset where
  "demo_flat_ds = demo_ds\<lparr>model_type := ''attention''\<rparr>"

text \<open>
  Two instances agree on the Corpus Index and on every configuration attribute
  \<^verbatim>\<open>make_batch\<close> reads.
\<close>

definition same_corpus :: "dataset \<Rightarrow> dataset \<Rightarrow> bool" where
  "same_corpus ds ds' =
     (df ds' = df ds \<and> df_sub ds' = df_sub ds \<and> is_test ds' = is_test ds \<and>
      model_type ds' = model_type ds \<and> save_format ds' = save_format ds \<and>
      num_stack ds' = num_stack ds \<and> num_skip ds' = num_skip ds \<and> splice ds' = splice ds \<and>
      pad_value ds' = pad_value ds \<and> pad_value_sub ds' = pad_value_sub ds \<and>
      sos_index ds' = sos_index ds \<and> eos_index ds' = eos_index ds \<and>
      sos_index_sub ds' = sos_index_sub ds \<and> eos_index_sub ds' = eos_index_sub ds)"

text \<open>
  A three-row manifest for the utterance filter, and an instance with a splice width of 3.
\<close>

definition demo_manifest :: dataframe where
  "demo_manifest =
     [(0, \<lparr>frame_num = 1200, input_path = ''/d/a_1.npy'', transcript = ''5 9''\<rparr>),
      (1, \<lparr>frame_num = 1200, input_path = ''/d/b.npy'', transcript = ''5 9 2 7''\<rparr>),
      (2, \<lparr>frame_num = 1600, input_path = ''/d/c.npy'', transcript = ''5 9 2 7 4''\<rparr>)]"

definition demo_splice_ds :: dataset where
  "demo_splice_ds = demo_ds\<lparr>splice := 3\<rparr>"

text \<open>The same corpus for the frame-synchronous family, and its batch.\<close>

definition demo_ctc_ds :: dataset where
  "demo_ctc_ds = demo_ds\<lparr>model_type := ''hierarchical_ctc''\<rparr>"

definition demo_ctc_batch :: "int batch" where
  "demo_ctc_batch =
     \<lparr>inputs =
         [\<lparr>ncols = 4, rows = [[1, 2, 3, 4], [5, 6, 0, 0]]\<rparr>,
          \<lparr>ncols = 4, rows = [[7, 8, 9, 10], [0, 0, 0, 0]]\<rparr>],
      labels =
         [[PyInt 5, PyInt 9, PyInt 2, PyInt 0, PyInt 0],
          [PyInt 7, PyInt 0, PyInt 0, PyInt 0, PyInt 0]],
      labels_sub =
         [[PyInt 1, PyInt 2, PyInt 3, PyInt 4, PyInt (- 1), PyInt (- 1)],
          [PyInt 8, PyInt 8, PyInt (- 1), PyInt (- 1), PyInt (- 1), PyInt (- 1)]],
      inputs_seq_len = [2, 1], labels_seq_len = [3, 1],
      labels_seq_len_sub = [4, 2], input_names = [''a_1'', ''b'']\<rparr>"




section \<open>Basic facts\<close>

lemma and_then_Inl [simp]: "and_then (Inl e) f = Inl e"
  by (simp add: and_then_def)

lemma and_then_Inr [simp]: "and_then (Inr x) f = f x"
  by (simp add: and_then_def)

lemma and_then_eq_Inr: "(and_then m f = Inr y) = (\<exists>x. m = Inr x \<and> f x = Inr y)"
  by (cases m) simp_all

lemma split_on_nonempty: "split_on c s \<noteq> []"
  by (induction s) (simp_all add: Let_def)

lemma series_length: "series d col is = Inr vs \<Longrightarrow> length vs = length is"
  by (induction "is" arbitrary: vs) (auto simp: and_then_eq_Inr split: option.splits)

lemma series_nth:
  "series d col is = Inr vs \<Longrightarrow> k < length is \<Longrightarrow>
   \<exists>u. map_of d (is ! k) = Some u \<and> vs ! k = col u"
proof (induction "is" arbitrary: vs k)
  case Nil
  then show ?case by simp
next
  case (Cons i "is")
  then show ?case
    by (cases k) (auto simp: and_then_eq_Inr split: option.splits)
qed

lemma series_map:
  "series d col is = Inr vs \<Longrightarrow> vs = map (\<lambda>i. col (the (map_of d i))) is"
  by (induction "is" arbitrary: vs) (auto simp: and_then_eq_Inr split: option.splits)

lemma foldl_max_Max: "foldl max x ys = Max (set (x # ys))"
proof -
  have "foldl max x ys = fold max ys x"
    by (induction ys arbitrary: x) (simp_all add: max.commute)
  then show ?thesis by (simp only: Max.set_eq_fold)
qed

lemma py_max_Inr: "py_max xs = Inr m \<Longrightarrow> xs \<noteq> [] \<and> m = Max (set xs)"
  by (cases xs) (auto simp add: foldl_max_Max simp del: foldl.simps)

lemma coerce_int [simp]: "coerce p (PyInt n) = Inr (PyInt n)"
  by (simp add: coerce_def split: option.splits)

lemma coerce_all_ints [simp]: "coerce_all p (map PyInt ns) = Inr (map PyInt ns)"
  by (induction ns) simp_all

lemma coerce_None [simp]: "coerce None v = Inr v"
  by (simp add: coerce_def)


lemma setitem_int:
  "setitem p row k (PyInt n) =
     (if k < length row then Inr (row[k := PyInt n]) else Inl IndexError)"
  by (simp add: setitem_def)

lemma setslice_ints:
  "setslice p row lo hi (map PyInt ns) =
     (let l = min lo (length row);
          h = max l (min hi (length row))
      in if length ns = h - l then Inr (take l row @ map PyInt ns @ drop h row)
         else if length ns = 1
              then Inr (take l row @ replicate (h - l) (hd (map PyInt ns)) @ drop h row)
         else Inl ValueError)"
  by (simp add: setslice_def cong: if_cong)

lemma setitem_Inr:
  "setitem p row k v = Inr r \<Longrightarrow>
   k < length row \<and> (\<exists>c. coerce p v = Inr c \<and> r = row[k := c])"
  by (auto simp: setitem_def and_then_eq_Inr split: if_splits)

lemma setslice_length: "setslice p row lo hi vs = Inr r \<Longrightarrow> length r = length row"
  by (auto simp: setslice_def Let_def and_then_eq_Inr split: if_splits)

lemma write_sos_eos_length:
  "write_sos_eos p row sos toks eos = Inr r \<Longrightarrow> length r = length row"
  by (auto simp: write_sos_eos_def Let_def and_then_eq_Inr dest!: setitem_Inr setslice_length)

lemma ceil_div_ceiling: "ceil_div a b = \<lceil>real_of_int a / real b\<rceil>"
proof -
  have "\<lfloor>real_of_int (- a) / real_of_int (int b)\<rfloor> = (- a) div int b"
    by (rule floor_divide_of_int_eq)
  then show ?thesis
    by (simp add: ceil_div_def ceiling_def)
qed

lemma write_sos_eos_bound:
  assumes "write_sos_eos p row sos toks eos = Inr r"
  shows "length toks + 2 \<le> length row"
  using assms
  by (auto simp: write_sos_eos_def Let_def and_then_eq_Inr setitem_int setslice_ints
           split: if_splits)

lemma write_sos_eos_replicate:
  assumes "write_sos_eos q (replicate L p) sos toks eos = Inr r"
  shows "r = PyInt sos # map PyInt toks @ PyInt eos # replicate (L - (length toks + 2)) p"
proof -
  from write_sos_eos_bound [OF assms] obtain k where L: "L = Suc (length toks + Suc k)"
    by (metis add_2_eq_Suc' add_Suc_right le_Suc_ex length_replicate add.commute)
  show ?thesis
    using assms unfolding L
    apply (simp add: write_sos_eos_def Let_def setitem_int setslice_ints min_def max_def
          list_update_append nth_append replicate_add [symmetric] del: replicate_Suc replicate.simps
          split: if_splits)
    apply auto
    done
qed

lemma untouched_trans: "untouched b b1 i \<Longrightarrow> untouched b1 b' i \<Longrightarrow> untouched b b' i"
  by (simp add: untouched_def)

lemma set_inputs_untouched: "set_inputs ds st paths b i = Inr b' \<Longrightarrow> untouched b b' i"
  by (auto simp: set_inputs_def and_then_eq_Inr Let_def untouched_def has_size_def example_def)

lemma set_labels_test_untouched: "set_labels_test ds idx b i = Inr b' \<Longrightarrow> untouched b b' i"
  by (auto simp: set_labels_test_def and_then_eq_Inr untouched_def has_size_def example_def
           split: option.splits)

lemma set_labels_attention_untouched:
  "set_labels_attention ds toks toks_sub b i = Inr b' \<Longrightarrow> untouched b b' i"
  by (auto simp: set_labels_attention_def and_then_eq_Inr untouched_def has_size_def example_def)

lemma set_labels_ctc_untouched:
  "set_labels_ctc ds toks toks_sub b i = Inr b' \<Longrightarrow> untouched b b' i"
  by (auto simp: set_labels_ctc_def and_then_eq_Inr untouched_def has_size_def example_def)

lemma set_values_cases:
  assumes "set_values ds st idx paths strs strs_sub b i = Inr b'"
  obtains b1 where "set_inputs ds st paths b i = Inr b1" "is_test ds"
      "set_labels_test ds idx b1 i = Inr b'"
  | b1 toks toks_sub where "set_inputs ds st paths b i = Inr b1" "\<not> is_test ds"
      "map_int (split_on CHR '' '' (strs ! i)) = Inr toks"
      "map_int (split_on CHR '' '' (strs_sub ! i)) = Inr toks_sub"
      "model_type ds = ''hierarchical_attention''"
      "set_labels_attention ds toks toks_sub b1 i = Inr b'"
  | b1 toks toks_sub where "set_inputs ds st paths b i = Inr b1" "\<not> is_test ds"
      "map_int (split_on CHR '' '' (strs ! i)) = Inr toks"
      "map_int (split_on CHR '' '' (strs_sub ! i)) = Inr toks_sub"
      "model_type ds \<noteq> ''hierarchical_attention''"
      "model_type ds = ''hierarchical_ctc''"
      "set_labels_ctc ds toks toks_sub b1 i = Inr b'"
proof -
  from assms obtain b1 where b1: "set_inputs ds st paths b i = Inr b1"
    and rest: "(if is_test ds then set_labels_test ds idx b1 i
         else and_then (map_int (split_on CHR '' '' (strs ! i))) (\<lambda>indices.
              and_then (map_int (split_on CHR '' '' (strs_sub ! i))) (\<lambda>indices_sub.
                if model_type ds = ''hierarchical_attention''
                then set_labels_attention ds indices indices_sub b1 i
                else if model_type ds = ''hierarchical_ctc''
                then set_labels_ctc ds indices indices_sub b1 i
                else Inl TypeError))) = Inr b'"
    unfolding set_values_def and_then_eq_Inr by blast
  show thesis
  proof (cases "is_test ds")
    case True
    with b1 rest show thesis by (simp add: that(1))
  next
    case False
    with rest obtain toks toks_sub where
      toks: "map_int (split_on CHR '' '' (strs ! i)) = Inr toks"
        "map_int (split_on CHR '' '' (strs_sub ! i)) = Inr toks_sub"
      and branch: "(if model_type ds = ''hierarchical_attention''
                then set_labels_attention ds toks toks_sub b1 i
                else if model_type ds = ''hierarchical_ctc''
                then set_labels_ctc ds toks toks_sub b1 i
                else Inl TypeError) = Inr b'"
      by (auto simp: and_then_eq_Inr)
    show thesis
    proof (cases "model_type ds = ''hierarchical_attention''")
      case True
      with branch b1 False toks show thesis by (simp add: that(2))
    next
      case notatt: False
      show thesis
      proof (cases "model_type ds = ''hierarchical_ctc''")
        case True
        with branch notatt b1 False toks show thesis by (simp add: that(3))
      next
        case False
        with branch notatt show thesis by simp
      qed
    qed
  qed
qed

lemma set_values_untouched:
  assumes "set_values ds st idx paths strs strs_sub b i = Inr b'"
  shows "untouched b b' i"
  using assms
proof (cases rule: set_values_cases)
  case (1 b1)
  then show ?thesis
    by (blast intro: untouched_trans set_inputs_untouched set_labels_test_untouched)
next
  case (2 b1 toks toks_sub)
  then show ?thesis
    by (blast intro: untouched_trans set_inputs_untouched set_labels_attention_untouched)
next
  case (3 b1 toks toks_sub)
  then show ?thesis
    by (blast intro: untouched_trans set_inputs_untouched set_labels_ctc_untouched)
qed

lemma set_values_other:
  "set_values ds st idx paths strs strs_sub b i = Inr b' \<Longrightarrow> j \<noteq> i \<Longrightarrow>
   example b' j = example b j"
  by (drule set_values_untouched) (simp add: untouched_def)

lemma set_values_size:
  "set_values ds st idx paths strs strs_sub b i = Inr b' \<Longrightarrow> has_size b' n = has_size b n"
  by (drule set_values_untouched) (simp add: untouched_def)

lemma set_values_names:
  "set_values ds st idx paths strs strs_sub b i = Inr b' \<Longrightarrow> input_names b' = input_names b"
  by (drule set_values_untouched) (simp add: untouched_def)

lemma for_range_other:
  assumes "for_range body is b = Inr b'" and "j \<notin> set is"
    and "\<And>s i s' k. body s i = Inr s' \<Longrightarrow> k \<noteq> i \<Longrightarrow> example s' k = example s k"
  shows "example b' j = example b j"
  using assms(1,2)
proof (induction "is" arbitrary: b)
  case Nil
  then show ?case by simp
next
  case (Cons i "is")
  from Cons.prems obtain s where s: "body b i = Inr s" "for_range body is s = Inr b'"
    by (auto simp: and_then_eq_Inr)
  from Cons.prems have "j \<noteq> i" "j \<notin> set is" by auto
  with s Cons.IH [of s] assms(3) [of b i s j] show ?case by simp
qed

lemma for_range_inv:
  assumes "for_range body is b = Inr b'" and "P b"
    and "\<And>s i s'. body s i = Inr s' \<Longrightarrow> P s \<Longrightarrow> P s'"
  shows "P b'"
  using assms(1,2)
proof (induction "is" arbitrary: b)
  case Nil
  then show ?case by simp
next
  case (Cons i "is")
  from Cons.prems obtain s where s: "body b i = Inr s" "for_range body is s = Inr b'"
    by (auto simp: and_then_eq_Inr)
  with Cons.prems assms(3) [of b i s] Cons.IH [of s] show ?case by simp
qed

lemma for_range_step:
  assumes "for_range body is b = Inr b'" and "distinct is" and "j \<in> set is"
    and other: "\<And>s i s' k. body s i = Inr s' \<Longrightarrow> k \<noteq> i \<Longrightarrow> example s' k = example s k"
    and inv: "\<And>s i s'. body s i = Inr s' \<Longrightarrow> P s \<Longrightarrow> P s'" and "P b"
  shows "\<exists>b1 b2. body b1 j = Inr b2 \<and> P b1 \<and> example b1 j = example b j \<and>
           example b' j = example b2 j"
  using assms(1,2,3,6)
proof (induction "is" arbitrary: b)
  case Nil
  then show ?case by simp
next
  case (Cons i "is")
  from Cons.prems obtain s where s: "body b i = Inr s" "for_range body is s = Inr b'"
    by (auto simp: and_then_eq_Inr)
  show ?case
  proof (cases "j = i")
    case True
    with Cons.prems have "j \<notin> set is" by simp
    have "example b' j = example s j"
      by (rule for_range_other [OF s(2) \<open>j \<notin> set is\<close>]) (rule other)
    with s(1) True Cons.prems(4) show ?thesis by blast
  next
    case False
    with Cons.prems have j: "j \<in> set is" "distinct is" by auto
    from inv [OF s(1) Cons.prems(4)] have "P s" .
    from Cons.IH [OF s(2) j(2) j(1) this]
    obtain b1 b2 where "body b1 j = Inr b2" "P b1" "example b1 j = example s j"
      "example b' j = example b2 j" by blast
    moreover from other [OF s(1) False] have "example s j = example b j" .
    ultimately show ?thesis by auto
  qed
qed

lemma cache_input_size_Inr:
  assumes "cache_input_size ds st paths = Inr ds1"
  shows "\<exists>isize. ds1 = ds\<lparr>input_size := Some isize\<rparr> \<and>
           (input_size ds = None \<or> input_size ds = Some isize)"
  using assms
  by (cases "input_size ds") (auto simp: cache_input_size_def and_then_eq_Inr)

lemma make_batch_Inr:
  assumes "make_batch ds st idx = (ds', Inr b)"
  obtains paths strs strs_sub isize where
    "series (df ds) input_path idx = Inr paths"
    "series (df ds) transcript idx = Inr strs"
    "series (df_sub ds) transcript idx = Inr strs_sub"
    "cache_input_size ds st paths = Inr ds'"
    "ds' = ds\<lparr>input_size := Some isize\<rparr>"
    "idx \<noteq> []" "num_skip ds \<noteq> 0"
    "0 \<le> ceil_div (Max (set (map (\<lambda>i. frame_num (the (map_of (df ds) i))) idx))) (num_skip ds)"
    "for_range (set_values ds' st idx paths strs strs_sub) [0..<length idx]
       (init_batch ds' (length idx)
          (nat (ceil_div (Max (set (map (\<lambda>i. frame_num (the (map_of (df ds) i))) idx)))
                  (num_skip ds)))
          (isize * splice ds)
          (Max (set (map (\<lambda>x. length (split_on CHR '' '' x)) strs)) + 2)
          (Max (set (map (\<lambda>x. length (split_on CHR '' '' x)) strs_sub)) + 2)
          paths) = Inr b"
proof -
  from assms obtain paths strs strs_sub where
    s: "series (df ds) input_path idx = Inr paths"
       "series (df ds) transcript idx = Inr strs"
       "series (df_sub ds) transcript idx = Inr strs_sub"
    and c: "cache_input_size ds st paths = Inr ds'"
    and bb: "build_batch ds' st idx paths strs strs_sub = Inr b"
    by (auto simp: make_batch_def split: sum.splits)
  from cache_input_size_Inr [OF c] obtain isize where
    ds': "ds' = ds\<lparr>input_size := Some isize\<rparr>" by blast
  from bb obtain fns m l l_sub paths' where
    f: "series (df ds) frame_num idx = Inr fns" "py_max fns = Inr m"
      "num_skip ds \<noteq> 0"
      "py_max (map (\<lambda>x. length (split_on CHR '' '' x)) strs) = Inr l"
      "py_max (map (\<lambda>x. length (split_on CHR '' '' x)) strs_sub) = Inr l_sub"
      "\<not> ceil_div m (num_skip ds) < 0"
      "series (df ds) input_path idx = Inr paths'"
    and loop: "for_range (set_values ds' st idx paths strs strs_sub) [0..<length idx]
       (init_batch ds' (length idx) (nat (ceil_div m (num_skip ds))) (isize * splice ds)
          (l + 2) (l_sub + 2) paths') = Inr b"
    unfolding build_batch_def ds'
    by (auto simp: and_then_eq_Inr Let_def split: if_splits)
  from f(7) s(1) have p: "paths' = paths" by simp
  from series_map [OF f(1)] have fns: "fns = map (\<lambda>i. frame_num (the (map_of (df ds) i))) idx" .
  from py_max_Inr [OF f(2)] have m: "fns \<noteq> []" "m = Max (set fns)" by simp_all
  from m(1) fns have ne: "idx \<noteq> []" by simp
  from py_max_Inr [OF f(4)] have l: "l = Max (set (map (\<lambda>x. length (split_on CHR '' '' x)) strs))"
    by simp
  from py_max_Inr [OF f(5)]
  have ls: "l_sub = Max (set (map (\<lambda>x. length (split_on CHR '' '' x)) strs_sub))"
    by simp
  show thesis
  proof (rule that [OF s c ds' ne f(3)])
    from f(6) m(2) fns
    show "0 \<le> ceil_div (Max (set (map (\<lambda>i. frame_num (the (map_of (df ds) i))) idx))) (num_skip ds)"
      by simp
    from loop show "for_range (set_values ds' st idx paths strs strs_sub) [0..<length idx]
       (init_batch ds' (length idx)
          (nat (ceil_div (Max (set (map (\<lambda>i. frame_num (the (map_of (df ds) i))) idx)))
                  (num_skip ds)))
          (isize * splice ds)
          (Max (set (map (\<lambda>x. length (split_on CHR '' '' x)) strs)) + 2)
          (Max (set (map (\<lambda>x. length (split_on CHR '' '' x)) strs_sub)) + 2)
          paths) = Inr b"
      unfolding p m(2) fns l ls .
  qed
qed

lemma init_batch_size: "has_size (init_batch ds n t w l l_sub paths) n"
  by (simp add: init_batch_def has_size_def)

lemma init_batch_example:
  "i < n \<Longrightarrow> example (init_batch ds n t w l l_sub paths) i =
     (np_zeros t w, 0, replicate l (pad_cell (pad_value ds)), 0, replicate l_sub (pad_cell (pad_value_sub ds)), 0)"
  by (simp add: init_batch_def example_def)

lemma loop_example:
  assumes "for_range (set_values ds st idx paths strs strs_sub) [0..<n] b0 = Inr b"
    and "has_size b0 n" and "i < n"
  shows "\<exists>b1 b2. set_values ds st idx paths strs strs_sub b1 i = Inr b2 \<and> has_size b1 n \<and>
            example b1 i = example b0 i \<and> example b i = example b2 i"
proof (rule for_range_step [OF assms(1)])
  show "distinct [0..<n]" by simp
  from assms(3) show "i \<in> set [0..<n]" by simp
  show "has_size b0 n" by fact
next
  fix s j s' k
  assume "set_values ds st idx paths strs strs_sub s j = Inr s'" "k \<noteq> j"
  then show "example s' k = example s k" by (rule set_values_other)
next
  fix s j s'
  assume "set_values ds st idx paths strs strs_sub s j = Inr s'" "has_size s n"
  then show "has_size s' n" by (simp add: set_values_size)
qed

lemma loop_size:
  assumes "for_range (set_values ds st idx paths strs strs_sub) is b0 = Inr b"
    and "has_size b0 n"
  shows "has_size b n"
  by (rule for_range_inv [OF assms(1), where P = "\<lambda>s. has_size s n"])
     (simp_all add: assms(2) set_values_size)

lemma loop_names:
  assumes "for_range (set_values ds st idx paths strs strs_sub) is b0 = Inr b"
  shows "input_names b = input_names b0"
  by (rule for_range_inv [OF assms(1), where P = "\<lambda>s. input_names s = input_names b0"])
     (simp_all add: set_values_names)

lemma do_splice_length [simp]: "length (rows (do_splice m w s)) = length (rows m)"
  by (simp add: do_splice_def Let_def)

lemma do_splice_ncols [simp]: "ncols (do_splice m w s) = ncols m * w"
  by (simp add: do_splice_def Let_def)

lemma stack_frame_ncols [simp]: "ncols (stack_frame m s k) = ncols m * s"
  by (simp add: stack_frame_def Let_def)

lemma stack_frame_length [simp]:
  "length (rows (stack_frame m s k)) = (length (rows m) + k - 1) div k"
  by (simp add: stack_frame_def Let_def)

lemma setitem_prefix_shape:
  "setitem_prefix a k v = Inr p \<Longrightarrow>
   length (rows p) = length (rows a) \<and> ncols p = ncols a"
  by (auto simp: setitem_prefix_def Let_def split: if_splits)

lemma setitem_prefix_fits:
  "setitem_prefix a (length (rows v)) v = Inr p \<Longrightarrow>
   length (rows v) \<le> length (rows a) \<or> (length (rows a) = 0 \<and> length (rows v) = 1)"
  by (cases "rows a") (auto simp: setitem_prefix_def Let_def min_def split: if_splits)

lemma setitem_prefix_width:
  "setitem_prefix a k v = Inr p \<Longrightarrow> ncols v = ncols a \<or> ncols v = 1"
  by (auto simp: setitem_prefix_def Let_def split: if_splits)

lemma set_inputs_example:
  assumes "set_inputs ds st paths b i = Inr b1" and "has_size b n" and "i < n"
  shows "\<exists>raw plane.
      load_data ds st (paths ! i) = Inr raw \<and>
      setitem_prefix (inputs b ! i)
        (length (rows (stack_frame raw (num_stack ds) (num_skip ds))))
        (do_splice (stack_frame raw (num_stack ds) (num_skip ds)) (splice ds) (num_stack ds))
        = Inr plane \<and>
      example b1 i =
        (plane, length (rows (stack_frame raw (num_stack ds) (num_skip ds))),
         labels b ! i, labels_seq_len b ! i, labels_sub b ! i, labels_seq_len_sub b ! i)"
  using assms
  by (auto simp: set_inputs_def and_then_eq_Inr Let_def example_def has_size_def)

lemma set_labels_test_example:
  assumes "set_labels_test ds idx b1 i = Inr b'" and "has_size b1 n" and "i < n"
  shows "\<exists>u u_sub cell cell_sub.
      map_of (df ds) (idx ! i) = Some u \<and> map_of (df_sub ds) (idx ! i) = Some u_sub \<and>
      labels b1 ! i \<noteq> [] \<and> labels_sub b1 ! i \<noteq> [] \<and>
      coerce (pad_value ds) (PyStr (transcript u)) = Inr cell \<and>
      coerce (pad_value_sub ds) (PyStr (transcript u_sub)) = Inr cell_sub \<and>
      example b' i =
        (inputs b1 ! i, inputs_seq_len b1 ! i,
         (labels b1 ! i)[0 := cell], labels_seq_len b1 ! i,
         (labels_sub b1 ! i)[0 := cell_sub], labels_seq_len_sub b1 ! i)"
  using assms
  by (auto simp: set_labels_test_def and_then_eq_Inr example_def has_size_def setitem_def
           split: option.splits if_splits)

lemma set_labels_attention_example:
  assumes "set_labels_attention ds toks toks_sub b1 i = Inr b'" and "has_size b1 n" and "i < n"
  shows "\<exists>row row_sub.
      write_sos_eos (pad_value ds) (labels b1 ! i) (sos_index ds) toks (eos_index ds) = Inr row \<and>
      write_sos_eos (pad_value_sub ds) (labels_sub b1 ! i) (sos_index_sub ds) toks_sub (eos_index_sub ds)
        = Inr row_sub \<and>
      example b' i =
        (inputs b1 ! i, inputs_seq_len b1 ! i, row, length toks + 2,
         row_sub, length toks_sub + 2)"
  using assms
  by (auto simp: set_labels_attention_def and_then_eq_Inr example_def has_size_def)

lemma set_labels_ctc_example:
  assumes "set_labels_ctc ds toks toks_sub b1 i = Inr b'" and "has_size b1 n" and "i < n"
  shows "\<exists>row row_sub.
      setslice (pad_value ds) (labels b1 ! i) 0 (length toks) (map PyInt toks) = Inr row \<and>
      setslice (pad_value_sub ds) (labels_sub b1 ! i) 0 (length toks_sub) (map PyInt toks_sub) = Inr row_sub \<and>
      example b' i =
        (inputs b1 ! i, inputs_seq_len b1 ! i, row, length toks, row_sub, length toks_sub)"
  using assms
  by (auto simp: set_labels_ctc_def and_then_eq_Inr example_def has_size_def)

lemma set_inputs_size:
  "set_inputs ds st paths b i = Inr b1 \<Longrightarrow> has_size b n \<Longrightarrow> has_size b1 n"
  by (drule set_inputs_untouched) (simp add: untouched_def)

lemma map_int_length: "map_int ws = Inr ns \<Longrightarrow> length ns = length ws"
  by (induction ws arbitrary: ns) (auto simp: and_then_eq_Inr)

lemma set_inputs_transformed:
  assumes "set_inputs ds st paths b i = Inr b1" and "has_size b n" and "i < n"
  shows "\<exists>raw plane.
      load_data ds st (paths ! i) = Inr raw \<and>
      setitem_prefix (inputs b ! i) (length (rows (transformed ds raw))) (transformed ds raw)
        = Inr plane \<and>
      example b1 i =
        (plane, length (rows (transformed ds raw)),
         labels b ! i, labels_seq_len b ! i, labels_sub b ! i, labels_seq_len_sub b ! i)"
  using set_inputs_example [OF assms] by (simp add: transformed_def)

lemma loop_cases:
  assumes loop: "for_range (set_values ds st idx paths strs strs_sub) [0..<n]
             (init_batch ds n t w l l_sub names) = Inr b"
    and i: "i < n"
  obtains (test) raw plane u u_sub cell cell_sub where
      "is_test ds"
      "load_data ds st (paths ! i) = Inr raw"
      "setitem_prefix (np_zeros t w) (length (rows (transformed ds raw))) (transformed ds raw)
         = Inr plane"
      "map_of (df ds) (idx ! i) = Some u" "map_of (df_sub ds) (idx ! i) = Some u_sub"
      "l \<noteq> 0" "l_sub \<noteq> 0"
      "example b i =
         (plane, length (rows (transformed ds raw)),
          (replicate l (pad_cell (pad_value ds)))[0 := cell], 0,
          (replicate l_sub (pad_cell (pad_value_sub ds)))[0 := cell_sub], 0)"
      "coerce (pad_value ds) (PyStr (transcript u)) = Inr cell"
      "coerce (pad_value_sub ds) (PyStr (transcript u_sub)) = Inr cell_sub"
  | (attention) raw plane toks toks_sub row row_sub where
      "\<not> is_test ds" "model_type ds = ''hierarchical_attention''"
      "load_data ds st (paths ! i) = Inr raw"
      "setitem_prefix (np_zeros t w) (length (rows (transformed ds raw))) (transformed ds raw)
         = Inr plane"
      "map_int (split_on CHR '' '' (strs ! i)) = Inr toks"
      "map_int (split_on CHR '' '' (strs_sub ! i)) = Inr toks_sub"
      "write_sos_eos (pad_value ds) (replicate l (pad_cell (pad_value ds))) (sos_index ds) toks (eos_index ds) = Inr row"
      "write_sos_eos (pad_value_sub ds) (replicate l_sub (pad_cell (pad_value_sub ds))) (sos_index_sub ds) toks_sub
         (eos_index_sub ds) = Inr row_sub"
      "example b i =
         (plane, length (rows (transformed ds raw)), row, length toks + 2,
          row_sub, length toks_sub + 2)"
  | (ctc) raw plane toks toks_sub row row_sub where
      "\<not> is_test ds" "model_type ds = ''hierarchical_ctc''"
      "load_data ds st (paths ! i) = Inr raw"
      "setitem_prefix (np_zeros t w) (length (rows (transformed ds raw))) (transformed ds raw)
         = Inr plane"
      "map_int (split_on CHR '' '' (strs ! i)) = Inr toks"
      "map_int (split_on CHR '' '' (strs_sub ! i)) = Inr toks_sub"
      "setslice (pad_value ds) (replicate l (pad_cell (pad_value ds))) 0 (length toks) (map PyInt toks) = Inr row"
      "setslice (pad_value_sub ds) (replicate l_sub (pad_cell (pad_value_sub ds))) 0 (length toks_sub) (map PyInt toks_sub)
         = Inr row_sub"
      "example b i =
         (plane, length (rows (transformed ds raw)), row, length toks, row_sub, length toks_sub)"
proof -
  from loop_example [OF loop init_batch_size i] obtain b1 b2 where
    step: "set_values ds st idx paths strs strs_sub b1 i = Inr b2" and sz: "has_size b1 n"
    and e1: "example b1 i = example (init_batch ds n t w l l_sub names) i"
    and e2: "example b i = example b2 i"
    by blast
  from e1 i have e1': "example b1 i =
      (np_zeros t w, 0, replicate l (pad_cell (pad_value ds)), 0, replicate l_sub (pad_cell (pad_value_sub ds)), 0)"
    by (simp add: init_batch_example)
  from step show thesis
  proof (cases rule: set_values_cases)
    case (1 c)
    from set_inputs_transformed [OF 1(1) sz i] e1' obtain raw plane where
      r: "load_data ds st (paths ! i) = Inr raw"
        "setitem_prefix (np_zeros t w) (length (rows (transformed ds raw))) (transformed ds raw)
           = Inr plane"
        "example c i = (plane, length (rows (transformed ds raw)),
           replicate l (pad_cell (pad_value ds)), 0, replicate l_sub (pad_cell (pad_value_sub ds)), 0)"
      by (auto simp: example_def)
    from set_labels_test_example [OF 1(3) set_inputs_size [OF 1(1) sz] i] r(3) e2
    obtain u u_sub cell cell_sub where
      "map_of (df ds) (idx ! i) = Some u" "map_of (df_sub ds) (idx ! i) = Some u_sub"
      "l \<noteq> 0" "l_sub \<noteq> 0"
      "example b i =
         (plane, length (rows (transformed ds raw)),
          (replicate l (pad_cell (pad_value ds)))[0 := cell], 0,
          (replicate l_sub (pad_cell (pad_value_sub ds)))[0 := cell_sub], 0)"
      "coerce (pad_value ds) (PyStr (transcript u)) = Inr cell"
      "coerce (pad_value_sub ds) (PyStr (transcript u_sub)) = Inr cell_sub"
      by (auto simp: example_def)
    with 1(2) r(1,2) show thesis by (rule test)
  next
    case (2 c toks toks_sub)
    from set_inputs_transformed [OF 2(1) sz i] e1' obtain raw plane where
      r: "load_data ds st (paths ! i) = Inr raw"
        "setitem_prefix (np_zeros t w) (length (rows (transformed ds raw))) (transformed ds raw)
           = Inr plane"
        "example c i = (plane, length (rows (transformed ds raw)),
           replicate l (pad_cell (pad_value ds)), 0, replicate l_sub (pad_cell (pad_value_sub ds)), 0)"
      by (auto simp: example_def)
    from set_labels_attention_example [OF 2(6) set_inputs_size [OF 2(1) sz] i] r(3) e2
    obtain row row_sub where
      "write_sos_eos (pad_value ds) (replicate l (pad_cell (pad_value ds))) (sos_index ds) toks (eos_index ds) = Inr row"
      "write_sos_eos (pad_value_sub ds) (replicate l_sub (pad_cell (pad_value_sub ds))) (sos_index_sub ds) toks_sub
         (eos_index_sub ds) = Inr row_sub"
      "example b i =
         (plane, length (rows (transformed ds raw)), row, length toks + 2,
          row_sub, length toks_sub + 2)"
      by (auto simp: example_def)
    with 2(2,5) r(1,2) 2(3,4) show thesis by (rule attention)
  next
    case (3 c toks toks_sub)
    from set_inputs_transformed [OF 3(1) sz i] e1' obtain raw plane where
      r: "load_data ds st (paths ! i) = Inr raw"
        "setitem_prefix (np_zeros t w) (length (rows (transformed ds raw))) (transformed ds raw)
           = Inr plane"
        "example c i = (plane, length (rows (transformed ds raw)),
           replicate l (pad_cell (pad_value ds)), 0, replicate l_sub (pad_cell (pad_value_sub ds)), 0)"
      by (auto simp: example_def)
    from set_labels_ctc_example [OF 3(7) set_inputs_size [OF 3(1) sz] i] r(3) e2
    obtain row row_sub where
      "setslice (pad_value ds) (replicate l (pad_cell (pad_value ds))) 0 (length toks) (map PyInt toks) = Inr row"
      "setslice (pad_value_sub ds) (replicate l_sub (pad_cell (pad_value_sub ds))) 0 (length toks_sub) (map PyInt toks_sub)
         = Inr row_sub"
      "example b i =
         (plane, length (rows (transformed ds raw)), row, length toks, row_sub, length toks_sub)"
      by (auto simp: example_def)
    with 3(2,6) r(1,2) 3(3,4) show thesis by (rule ctc)
  qed
qed

lemma series_nth_Some:
  assumes "series d col is = Inr vs" and "k < length is" and "map_of d (is ! k) = Some u"
  shows "vs ! k = col u"
  using series_nth [OF assms(1,2)] assms(3) by auto

lemma setslice_fill:
  assumes "setslice q (replicate L p) 0 n (map PyInt ns) = Inr r" and "n = length ns"
    and "n \<le> L"
  shows "r = map PyInt ns @ replicate (L - n) p"
  using assms by (auto simp: setslice_ints Let_def min_def max_def split: if_splits)

lemma nth_le_Max_map: "i < length xs \<Longrightarrow> f (xs ! i) \<le> Max (set (map f xs))"
  by (rule Max_ge) auto

lemma demo_run:
  "make_batch demo_ds demo_files [0, 1] = (demo_ds\<lparr>input_size := Some 4\<rparr>, Inr demo_batch)"
  by code_simp

lemma demo_ctc_run:
  "make_batch demo_ctc_ds demo_files [0, 1] =
     (demo_ctc_ds\<lparr>input_size := Some 4\<rparr>, Inr demo_ctc_batch)"
  by code_simp

section \<open>Label encoding on training splits\<close>

text \<open>
  Claim C1. On a non-evaluation split, for every example \<open>i\<close> of a batch that
  \<open>make_batch\<close> returns, every token of the raw transcript parses to an index and the
  count \<open>n\<close> of those indices is the transcript's token count. With
  \<^verbatim>\<open>hierarchical_attention\<close> the row \<open>labels[i]\<close> starts with SOS, the \<open>n\<close>
  indices and EOS, and \<open>labels_seq_len[i] = n + 2\<close>; with \<^verbatim>\<open>hierarchical_ctc\<close> it
  starts with the \<open>n\<close> indices and \<open>labels_seq_len[i] = n\<close>. The sub task has the same
  form with its own SOS/EOS indices and token count. No other model type returns a batch.
\<close>

theorem make_batch_label_encoding:
  assumes ok: "make_batch ds st data_indices = (ds', Inr b)"
    and train: "\<not> is_test ds"
    and i: "i < length data_indices"
    and u: "map_of (df ds) (data_indices ! i) = Some u"
    and u_sub: "map_of (df_sub ds) (data_indices ! i) = Some u_sub"
  shows "\<exists>toks toks_sub.
      map_int (split_on CHR '' '' (transcript u)) = Inr toks \<and>
      length toks = token_count (transcript u) \<and>
      map_int (split_on CHR '' '' (transcript u_sub)) = Inr toks_sub \<and>
      length toks_sub = token_count (transcript u_sub) \<and>
      (model_type ds = ''hierarchical_attention'' \<or> model_type ds = ''hierarchical_ctc'') \<and>
      (model_type ds = ''hierarchical_attention'' \<longrightarrow>
         take (length toks + 2) (labels b ! i) =
           PyInt (sos_index ds) # map PyInt toks @ [PyInt (eos_index ds)] \<and>
         labels_seq_len b ! i = length toks + 2 \<and>
         take (length toks_sub + 2) (labels_sub b ! i) =
           PyInt (sos_index_sub ds) # map PyInt toks_sub @ [PyInt (eos_index_sub ds)] \<and>
         labels_seq_len_sub b ! i = length toks_sub + 2) \<and>
      (model_type ds = ''hierarchical_ctc'' \<longrightarrow>
         take (length toks) (labels b ! i) = map PyInt toks \<and>
         labels_seq_len b ! i = length toks \<and>
         take (length toks_sub) (labels_sub b ! i) = map PyInt toks_sub \<and>
         labels_seq_len_sub b ! i = length toks_sub)"
proof -
  from ok obtain paths strs strs_sub isize where
    s: "series (df ds) transcript data_indices = Inr strs"
       "series (df_sub ds) transcript data_indices = Inr strs_sub"
    and ds': "ds' = ds\<lparr>input_size := Some isize\<rparr>"
    and loop: "for_range (set_values ds' st data_indices paths strs strs_sub)
       [0..<length data_indices]
       (init_batch ds' (length data_indices)
          (nat (ceil_div (Max (set (map (\<lambda>i. frame_num (the (map_of (df ds) i))) data_indices)))
                  (num_skip ds)))
          (isize * splice ds)
          (Max (set (map (\<lambda>x. length (split_on CHR '' '' x)) strs)) + 2)
          (Max (set (map (\<lambda>x. length (split_on CHR '' '' x)) strs_sub)) + 2)
          paths) = Inr b"
    by (rule make_batch_Inr)
  have si: "strs ! i = transcript u" by (rule series_nth_Some [OF s(1) i u])
  have ssi: "strs_sub ! i = transcript u_sub" by (rule series_nth_Some [OF s(2) i u_sub])
  from loop i show ?thesis
  proof (cases rule: loop_cases)
    case (test raw plane v v_sub)
    with train ds' show ?thesis by simp
  next
    case (attention raw plane toks toks_sub row row_sub)
    from attention(5,6) have t: "map_int (split_on CHR '' '' (transcript u)) = Inr toks"
      "map_int (split_on CHR '' '' (transcript u_sub)) = Inr toks_sub"
      by (simp_all add: si ssi)
    from t have len: "length toks = token_count (transcript u)"
      "length toks_sub = token_count (transcript u_sub)"
      by (simp_all add: token_count_def map_int_length)
    from write_sos_eos_replicate [OF attention(7)]
    have row: "take (length toks + 2) row = PyInt (sos_index ds) # map PyInt toks @ [PyInt (eos_index ds)]"
      by (simp add: ds')
    from write_sos_eos_replicate [OF attention(8)]
    have row_sub: "take (length toks_sub + 2) row_sub =
        PyInt (sos_index_sub ds) # map PyInt toks_sub @ [PyInt (eos_index_sub ds)]"
      by (simp add: ds')
    from attention(9) have e: "labels b ! i = row" "labels_sub b ! i = row_sub"
      "labels_seq_len b ! i = length toks + 2" "labels_seq_len_sub b ! i = length toks_sub + 2"
      by (simp_all add: example_def)
    from attention(2) have m: "model_type ds = ''hierarchical_attention''" by (simp add: ds')
    show ?thesis
      apply (rule exI [of _ toks], rule exI [of _ toks_sub])
      using t len row row_sub e m by simp
  next
    case (ctc raw plane toks toks_sub row row_sub)
    from ctc(5,6) have t: "map_int (split_on CHR '' '' (transcript u)) = Inr toks"
      "map_int (split_on CHR '' '' (transcript u_sub)) = Inr toks_sub"
      by (simp_all add: si ssi)
    from t have len: "length toks = token_count (transcript u)"
      "length toks_sub = token_count (transcript u_sub)"
      by (simp_all add: token_count_def map_int_length)
    from s i have il: "i < length strs" "i < length strs_sub"
      by (simp_all add: series_length)
    have "length toks \<le> Max (set (map (\<lambda>x. length (split_on CHR '' '' x)) strs)) + 2"
      using nth_le_Max_map [OF il(1), of "\<lambda>x. length (split_on CHR '' '' x)"] len(1) si
      by (simp add: token_count_def)
    from setslice_fill [OF ctc(7) _ this]
    have row: "take (length toks) row = map PyInt toks" by simp
    have "length toks_sub \<le> Max (set (map (\<lambda>x. length (split_on CHR '' '' x)) strs_sub)) + 2"
      using nth_le_Max_map [OF il(2), of "\<lambda>x. length (split_on CHR '' '' x)"] len(2) ssi
      by (simp add: token_count_def)
    from setslice_fill [OF ctc(8) _ this]
    have row_sub: "take (length toks_sub) row_sub = map PyInt toks_sub" by simp
    from ctc(9) have e: "labels b ! i = row" "labels_sub b ! i = row_sub"
      "labels_seq_len b ! i = length toks" "labels_seq_len_sub b ! i = length toks_sub"
      by (simp_all add: example_def)
    from ctc(2) have m: "model_type ds = ''hierarchical_ctc''" by (simp add: ds')
    show ?thesis
      apply (rule exI [of _ toks], rule exI [of _ toks_sub])
      using t len row row_sub e m by simp
  qed
qed

theorem make_batch_label_encoding_witness:
  "make_batch demo_ds demo_files [0, 1] = (demo_ds\<lparr>input_size := Some 4\<rparr>, Inr demo_batch) \<and>
   \<not> is_test demo_ds \<and> model_type demo_ds = ''hierarchical_attention'' \<and>
   map_of (df demo_ds) ([0, 1] ! 0) =
     Some \<lparr>frame_num = 3, input_path = ''/d/a_1.npy'', transcript = ''5 9 2''\<rparr> \<and>
   map_of (df_sub demo_ds) ([0, 1] ! 0) =
     Some \<lparr>frame_num = 3, input_path = ''/d/a_1.npy'', transcript = ''1 2 3 4''\<rparr> \<and>
   take 5 (labels demo_batch ! 0) = [PyInt 1, PyInt 5, PyInt 9, PyInt 2, PyInt 2] \<and>
   labels_seq_len demo_batch ! 0 = 5 \<and>
   take 6 (labels_sub demo_batch ! 0) =
     [PyInt 30, PyInt 1, PyInt 2, PyInt 3, PyInt 4, PyInt 31] \<and>
   labels_seq_len_sub demo_batch ! 0 = 6 \<and>
   make_batch demo_ctc_ds demo_files [0, 1] =
     (demo_ctc_ds\<lparr>input_size := Some 4\<rparr>, Inr demo_ctc_batch) \<and>
   \<not> is_test demo_ctc_ds \<and> model_type demo_ctc_ds = ''hierarchical_ctc'' \<and>
   take 3 (labels demo_ctc_batch ! 0) = [PyInt 5, PyInt 9, PyInt 2] \<and>
   labels_seq_len demo_ctc_batch ! 0 = 3 \<and>
   take 4 (labels_sub demo_ctc_batch ! 0) = [PyInt 1, PyInt 2, PyInt 3, PyInt 4] \<and>
   labels_seq_len_sub demo_ctc_batch ! 0 = 4"
proof -
  have h: "\<not> is_test demo_ds" "(0::nat) < length [0, 1 :: int]"
    "map_of (df demo_ds) ([0, 1] ! 0) =
       Some \<lparr>frame_num = 3, input_path = ''/d/a_1.npy'', transcript = ''5 9 2''\<rparr>"
    "map_of (df_sub demo_ds) ([0, 1] ! 0) =
       Some \<lparr>frame_num = 3, input_path = ''/d/a_1.npy'', transcript = ''1 2 3 4''\<rparr>"
    by (simp_all add: demo_ds_def demo_df_def demo_df_sub_def)
  have g: "\<not> is_test demo_ctc_ds" "(0::nat) < length [0, 1 :: int]"
    "map_of (df demo_ctc_ds) ([0, 1] ! 0) =
       Some \<lparr>frame_num = 3, input_path = ''/d/a_1.npy'', transcript = ''5 9 2''\<rparr>"
    "map_of (df_sub demo_ctc_ds) ([0, 1] ! 0) =
       Some \<lparr>frame_num = 3, input_path = ''/d/a_1.npy'', transcript = ''1 2 3 4''\<rparr>"
    by (simp_all add: demo_ctc_ds_def demo_ds_def demo_df_def demo_df_sub_def)
  have m: "model_type demo_ds = ''hierarchical_attention''"
    "model_type demo_ctc_ds = ''hierarchical_ctc''"
    by (simp_all add: demo_ctc_ds_def demo_ds_def)
  have p: "map_int (split_on CHR '' '' ''5 9 2'') = Inr [5, 9, 2]"
    "map_int (split_on CHR '' '' ''1 2 3 4'') = Inr [1, 2, 3, 4]"
    by code_simp+
  note enc = make_batch_label_encoding [OF demo_run h, unfolded utterance.select_convs]
  from enc m(1) obtain toks toks_sub where
    t: "map_int (split_on CHR '' '' ''5 9 2'') = Inr toks"
       "map_int (split_on CHR '' '' ''1 2 3 4'') = Inr toks_sub"
    and c: "take (length toks + 2) (labels demo_batch ! 0) =
              PyInt (sos_index demo_ds) # map PyInt toks @ [PyInt (eos_index demo_ds)]"
       "labels_seq_len demo_batch ! 0 = length toks + 2"
       "take (length toks_sub + 2) (labels_sub demo_batch ! 0) =
          PyInt (sos_index_sub demo_ds) # map PyInt toks_sub @ [PyInt (eos_index_sub demo_ds)]"
       "labels_seq_len_sub demo_batch ! 0 = length toks_sub + 2"
    by blast
  from t(1) [unfolded p(1)] t(2) [unfolded p(2)]
  have toks: "toks = [5, 9, 2]" "toks_sub = [1, 2, 3, 4]" by simp_all
  from c [unfolded toks]
  have att: "take 5 (labels demo_batch ! 0) = [PyInt 1, PyInt 5, PyInt 9, PyInt 2, PyInt 2] \<and>
   labels_seq_len demo_batch ! 0 = 5 \<and>
   take 6 (labels_sub demo_batch ! 0) =
     [PyInt 30, PyInt 1, PyInt 2, PyInt 3, PyInt 4, PyInt 31] \<and>
   labels_seq_len_sub demo_batch ! 0 = 6"
    by (simp add: demo_ds_def eval_nat_numeral)
  note enc' = make_batch_label_encoding [OF demo_ctc_run g, unfolded utterance.select_convs]
  from enc' m(2) obtain toks' toks_sub' where
    t': "map_int (split_on CHR '' '' ''5 9 2'') = Inr toks'"
       "map_int (split_on CHR '' '' ''1 2 3 4'') = Inr toks_sub'"
    and c': "take (length toks') (labels demo_ctc_batch ! 0) = map PyInt toks'"
       "labels_seq_len demo_ctc_batch ! 0 = length toks'"
       "take (length toks_sub') (labels_sub demo_ctc_batch ! 0) = map PyInt toks_sub'"
       "labels_seq_len_sub demo_ctc_batch ! 0 = length toks_sub'"
    by blast
  from t'(1) [unfolded p(1)] t'(2) [unfolded p(2)]
  have toks': "toks' = [5, 9, 2]" "toks_sub' = [1, 2, 3, 4]" by simp_all
  from c' [unfolded toks']
  have ctc: "take 3 (labels demo_ctc_batch ! 0) = [PyInt 5, PyInt 9, PyInt 2] \<and>
   labels_seq_len demo_ctc_batch ! 0 = 3 \<and>
   take 4 (labels_sub demo_ctc_batch ! 0) = [PyInt 1, PyInt 2, PyInt 3, PyInt 4] \<and>
   labels_seq_len_sub demo_ctc_batch ! 0 = 4"
    by (simp add: eval_nat_numeral)
  from demo_run demo_ctc_run h g m att ctc show ?thesis by simp
qed

section \<open>Batch maxima\<close>

lemma series_token_counts:
  assumes "series d transcript is = Inr strs"
  shows "map (\<lambda>x. length (split_on CHR '' '' x)) strs = token_counts d is"
  using series_map [OF assms] by (simp add: token_counts_def token_count_def)

lemma np_zeros_shape [simp]: "length (rows (np_zeros t w)) = t" "ncols (np_zeros t w) = w"
  by (simp_all add: np_zeros_def)

lemma make_batch_size:
  assumes "make_batch ds st data_indices = (ds', Inr b)"
  shows "has_size b (length data_indices)"
  using assms by (rule make_batch_Inr) (rule loop_size, assumption, rule init_batch_size)

lemma make_batch_shapes:
  assumes ok: "make_batch ds st data_indices = (ds', Inr b)" and i: "i < length data_indices"
  shows "int (length (rows (inputs b ! i))) =
           ceil_div (Max (set (frame_nums ds data_indices))) (num_skip ds) \<and>
         length (labels b ! i) = Max (set (token_counts (df ds) data_indices)) + 2 \<and>
         length (labels_sub b ! i) = Max (set (token_counts (df_sub ds) data_indices)) + 2 \<and>
         ncols (inputs b ! i) = the (input_size ds') * splice ds"
proof -
  from ok obtain paths strs strs_sub isize where
    s: "series (df ds) transcript data_indices = Inr strs"
       "series (df_sub ds) transcript data_indices = Inr strs_sub"
    and ds': "ds' = ds\<lparr>input_size := Some isize\<rparr>"
    and nonneg: "0 \<le> ceil_div (Max (set (map (\<lambda>i. frame_num (the (map_of (df ds) i))) data_indices)))
                  (num_skip ds)"
    and loop: "for_range (set_values ds' st data_indices paths strs strs_sub)
       [0..<length data_indices]
       (init_batch ds' (length data_indices)
          (nat (ceil_div (Max (set (map (\<lambda>i. frame_num (the (map_of (df ds) i))) data_indices)))
                  (num_skip ds)))
          (isize * splice ds)
          (Max (set (map (\<lambda>x. length (split_on CHR '' '' x)) strs)) + 2)
          (Max (set (map (\<lambda>x. length (split_on CHR '' '' x)) strs_sub)) + 2)
          paths) = Inr b"
    by (rule make_batch_Inr)
  note tc = series_token_counts [OF s(1)] series_token_counts [OF s(2)]
  from loop i show ?thesis
  proof (cases rule: loop_cases)
    case (test raw plane u u_sub)
    from setitem_prefix_shape [OF test(3)] test(8) nonneg show ?thesis
      by (simp add: example_def tc frame_nums_def ds')
  next
    case (attention raw plane toks toks_sub row row_sub)
    from setitem_prefix_shape [OF attention(4)] attention(9) nonneg
      write_sos_eos_length [OF attention(7)] write_sos_eos_length [OF attention(8)]
    show ?thesis
      by (simp add: example_def tc frame_nums_def ds')
  next
    case (ctc raw plane toks toks_sub row row_sub)
    from setitem_prefix_shape [OF ctc(4)] ctc(9) nonneg
      setslice_length [OF ctc(7)] setslice_length [OF ctc(8)]
    show ?thesis
      by (simp add: example_def tc frame_nums_def ds')
  qed
qed

text \<open>
  Claim C2. A batch is returned only for a non-empty index subset, and then the time
  dimension of every plane of \<open>inputs\<close> is the ceiling of (the largest manifest
  \<open>frame_num\<close> of the subset divided by \<open>num_skip\<close>), and every row of \<open>labels\<close>
  (\<open>labels_sub\<close>) has length (the largest raw token count of the subset in that task)
  plus 2. The statement does not mention \<open>model_type\<close> or \<open>is_test\<close>: the \<open>+ 2\<close> is
  there once, whatever the model family.
\<close>

theorem make_batch_maxima:
  assumes ok: "make_batch ds st data_indices = (ds', Inr b)"
  shows "data_indices \<noteq> [] \<and>
     length (inputs b) = length data_indices \<and>
     length (labels b) = length data_indices \<and>
     length (labels_sub b) = length data_indices \<and>
     (\<forall>i < length data_indices.
        int (length (rows (inputs b ! i))) =
          \<lceil>real_of_int (Max (set (frame_nums ds data_indices))) / real (num_skip ds)\<rceil> \<and>
        length (labels b ! i) = Max (set (token_counts (df ds) data_indices)) + 2 \<and>
        length (labels_sub b ! i) = Max (set (token_counts (df_sub ds) data_indices)) + 2)"
proof -
  from ok have ne: "data_indices \<noteq> []" by (rule make_batch_Inr)
  from make_batch_size [OF ok] have sz: "length (inputs b) = length data_indices"
    "length (labels b) = length data_indices" "length (labels_sub b) = length data_indices"
    by (simp_all add: has_size_def)
  from make_batch_shapes [OF ok] ne sz show ?thesis
    by (simp add: ceil_div_ceiling)
qed

theorem make_batch_maxima_witness:
  "make_batch demo_ds demo_files [0, 1] = (demo_ds\<lparr>input_size := Some 4\<rparr>, Inr demo_batch) \<and>
   frame_nums demo_ds [0, 1] = [3, 2] \<and> num_skip demo_ds = 2 \<and>
   token_counts (df demo_ds) [0, 1] = [3, 1] \<and>
   token_counts (df_sub demo_ds) [0, 1] = [4, 2] \<and>
   int (length (rows (inputs demo_batch ! 1))) = \<lceil>(3::real) / 2\<rceil> \<and>
   length (labels demo_batch ! 1) = 3 + 2 \<and>
   length (labels_sub demo_batch ! 1) = 4 + 2"
proof -
  have f: "frame_nums demo_ds [0, 1] = [3, 2]" "num_skip demo_ds = 2"
    by (simp_all add: frame_nums_def demo_ds_def demo_df_def)
  have t: "token_counts (df demo_ds) [0, 1] = [3, 1]"
    "token_counts (df_sub demo_ds) [0, 1] = [4, 2]"
    by (simp_all add: token_counts_def token_count_def demo_ds_def demo_df_def demo_df_sub_def)
  from make_batch_maxima [OF demo_run]
  have "int (length (rows (inputs demo_batch ! 1))) =
          \<lceil>real_of_int (Max (set (frame_nums demo_ds [0, 1]))) / real (num_skip demo_ds)\<rceil> \<and>
        length (labels demo_batch ! 1) = Max (set (token_counts (df demo_ds) [0, 1])) + 2 \<and>
        length (labels_sub demo_batch ! 1) = Max (set (token_counts (df_sub demo_ds) [0, 1])) + 2"
    by simp
  then have "int (length (rows (inputs demo_batch ! 1))) = \<lceil>(3::real) / 2\<rceil> \<and>
   length (labels demo_batch ! 1) = 3 + 2 \<and>
   length (labels_sub demo_batch ! 1) = 4 + 2"
    unfolding f t by simp
  with demo_run f t show ?thesis by simp
qed

section \<open>Lengths and padding\<close>

lemma ceil_div_pos: "0 < a \<Longrightarrow> b \<noteq> 0 \<Longrightarrow> 0 < ceil_div a b"
proof -
  assume "0 < a" "b \<noteq> 0"
  then have "(- a) div int b < 0" by (simp add: div_neg_pos_less0)
  then show ?thesis by (simp add: ceil_div_def)
qed

lemma sos_eos_row_pad:
  assumes "n = length xs" and "n + 2 \<le> j" and "j < length (a # xs @ e # replicate k p)"
  shows "(a # xs @ e # replicate k p) ! j = p"
proof -
  from assms obtain d where j: "j = Suc (n + Suc d)" and d: "d < k"
    by (auto simp: le_iff_add)
  show ?thesis
    unfolding j using d assms(1) by (simp add: nth_append)
qed

lemma make_batch_seq_len:
  assumes ok: "make_batch ds st data_indices = (ds', Inr b)" and i: "i < length data_indices"
    and pos: "0 < Max (set (frame_nums ds data_indices))"
  shows "inputs_seq_len b ! i \<le> length (rows (inputs b ! i))"
proof -
  from ok obtain paths strs strs_sub isize where
    ds': "ds' = ds\<lparr>input_size := Some isize\<rparr>"
    and skip: "num_skip ds \<noteq> 0"
    and loop: "for_range (set_values ds' st data_indices paths strs strs_sub)
       [0..<length data_indices]
       (init_batch ds' (length data_indices)
          (nat (ceil_div (Max (set (map (\<lambda>i. frame_num (the (map_of (df ds) i))) data_indices)))
                  (num_skip ds)))
          (isize * splice ds)
          (Max (set (map (\<lambda>x. length (split_on CHR '' '' x)) strs)) + 2)
          (Max (set (map (\<lambda>x. length (split_on CHR '' '' x)) strs_sub)) + 2)
          paths) = Inr b"
    by (rule make_batch_Inr)
  from ceil_div_pos [OF pos skip]
  have t: "0 < nat (ceil_div (Max (set (map (\<lambda>i. frame_num (the (map_of (df ds) i))) data_indices)))
                  (num_skip ds))"
    by (simp add: frame_nums_def)
  from loop i show ?thesis
  proof (cases rule: loop_cases)
    case (test raw plane u u_sub)
    from setitem_prefix_shape [OF test(3)] setitem_prefix_fits [OF test(3)] test(8) t
    show ?thesis by (simp add: example_def)
  next
    case (attention raw plane toks toks_sub row row_sub)
    from setitem_prefix_shape [OF attention(4)] setitem_prefix_fits [OF attention(4)]
      attention(9) t
    show ?thesis by (simp add: example_def)
  next
    case (ctc raw plane toks toks_sub row row_sub)
    from setitem_prefix_shape [OF ctc(4)] setitem_prefix_fits [OF ctc(4)] ctc(9) t
    show ?thesis by (simp add: example_def)
  qed
qed

lemma make_batch_rows:
  assumes ok: "make_batch ds st data_indices = (ds', Inr b)" and i: "i < length data_indices"
  obtains (test) u u_sub cell cell_sub where
      "is_test ds"
      "map_of (df ds) (data_indices ! i) = Some u"
      "map_of (df_sub ds) (data_indices ! i) = Some u_sub"
      "labels b ! i = cell #
         replicate (Max (set (token_counts (df ds) data_indices)) + 1)
           (pad_cell (pad_value ds))"
      "labels_sub b ! i = cell_sub #
         replicate (Max (set (token_counts (df_sub ds) data_indices)) + 1)
           (pad_cell (pad_value_sub ds))"
      "labels_seq_len b ! i = 0" "labels_seq_len_sub b ! i = 0"
      "coerce (pad_value ds) (PyStr (transcript u)) = Inr cell"
      "coerce (pad_value_sub ds) (PyStr (transcript u_sub)) = Inr cell_sub"
  | (attention) toks toks_sub where
      "\<not> is_test ds" "model_type ds = ''hierarchical_attention''"
      "labels b ! i = PyInt (sos_index ds) # map PyInt toks @ PyInt (eos_index ds) #
         replicate (Max (set (token_counts (df ds) data_indices)) - length toks) (pad_cell (pad_value ds))"
      "labels_seq_len b ! i = length toks + 2"
      "labels_sub b ! i = PyInt (sos_index_sub ds) # map PyInt toks_sub @
         PyInt (eos_index_sub ds) #
         replicate (Max (set (token_counts (df_sub ds) data_indices)) - length toks_sub)
           (pad_cell (pad_value_sub ds))"
      "labels_seq_len_sub b ! i = length toks_sub + 2"
  | (ctc) toks toks_sub where
      "\<not> is_test ds" "model_type ds = ''hierarchical_ctc''"
      "labels b ! i = map PyInt toks @
         replicate (Max (set (token_counts (df ds) data_indices)) + 2 - length toks)
           (pad_cell (pad_value ds))"
      "labels_seq_len b ! i = length toks"
      "labels_sub b ! i = map PyInt toks_sub @
         replicate (Max (set (token_counts (df_sub ds) data_indices)) + 2 - length toks_sub)
           (pad_cell (pad_value_sub ds))"
      "labels_seq_len_sub b ! i = length toks_sub"
proof -
  from ok obtain paths strs strs_sub isize where
    s: "series (df ds) transcript data_indices = Inr strs"
       "series (df_sub ds) transcript data_indices = Inr strs_sub"
    and ds': "ds' = ds\<lparr>input_size := Some isize\<rparr>"
    and loop: "for_range (set_values ds' st data_indices paths strs strs_sub)
       [0..<length data_indices]
       (init_batch ds' (length data_indices)
          (nat (ceil_div (Max (set (map (\<lambda>i. frame_num (the (map_of (df ds) i))) data_indices)))
                  (num_skip ds)))
          (isize * splice ds)
          (Max (set (map (\<lambda>x. length (split_on CHR '' '' x)) strs)) + 2)
          (Max (set (map (\<lambda>x. length (split_on CHR '' '' x)) strs_sub)) + 2)
          paths) = Inr b"
    by (rule make_batch_Inr)
  note tc = series_token_counts [OF s(1)] series_token_counts [OF s(2)]
  note loop' = loop [unfolded tc]
  from s i have il: "i < length strs" "i < length strs_sub"
    by (simp_all add: series_length)
  have bound: "length (split_on CHR '' '' (strs ! i))
                 \<le> Max (set (token_counts (df ds) data_indices))"
    "length (split_on CHR '' '' (strs_sub ! i))
                 \<le> Max (set (token_counts (df_sub ds) data_indices))"
    using nth_le_Max_map [OF il(1), of "\<lambda>x. length (split_on CHR '' '' x)"]
      nth_le_Max_map [OF il(2), of "\<lambda>x. length (split_on CHR '' '' x)"]
    by (simp_all add: tc)
  from loop' i show thesis
  proof (cases rule: loop_cases)
    case (test raw plane u u_sub cell cell_sub)
    from test(8) have "labels b ! i = cell #
        replicate (Max (set (token_counts (df ds) data_indices)) + 1)
          (pad_cell (pad_value ds))"
      "labels_sub b ! i = cell_sub #
        replicate (Max (set (token_counts (df_sub ds) data_indices)) + 1)
          (pad_cell (pad_value_sub ds))"
      "labels_seq_len b ! i = 0" "labels_seq_len_sub b ! i = 0"
      by (simp_all add: example_def ds')
    with test(1,4,5,9,10) show thesis by (intro that(1)) (simp_all add: ds')
  next
    case (attention raw plane toks toks_sub row row_sub)
    from write_sos_eos_replicate [OF attention(7)] write_sos_eos_replicate [OF attention(8)]
      attention(9)
    have "labels b ! i = PyInt (sos_index ds) # map PyInt toks @ PyInt (eos_index ds) #
        replicate (Max (set (token_counts (df ds) data_indices)) - length toks) (pad_cell (pad_value ds))"
      "labels_sub b ! i = PyInt (sos_index_sub ds) # map PyInt toks_sub @
        PyInt (eos_index_sub ds) #
        replicate (Max (set (token_counts (df_sub ds) data_indices)) - length toks_sub)
          (pad_cell (pad_value_sub ds))"
      "labels_seq_len b ! i = length toks + 2" "labels_seq_len_sub b ! i = length toks_sub + 2"
      by (simp_all add: example_def ds')
    with attention(1,2) show thesis by (intro that(2)) (simp_all add: ds')
  next
    case (ctc raw plane toks toks_sub row row_sub)
    have "length toks \<le> Max (set (token_counts (df ds) data_indices)) + 2"
      using bound(1) map_int_length [OF ctc(5)] by simp
    from setslice_fill [OF ctc(7) _ this]
    have r: "row = map PyInt toks @
        replicate (Max (set (token_counts (df ds) data_indices)) + 2 - length toks)
          (pad_cell (pad_value ds))"
      by (simp add: ds')
    have "length toks_sub \<le> Max (set (token_counts (df_sub ds) data_indices)) + 2"
      using bound(2) map_int_length [OF ctc(6)] by simp
    from setslice_fill [OF ctc(8) _ this]
    have r_sub: "row_sub = map PyInt toks_sub @
        replicate (Max (set (token_counts (df_sub ds) data_indices)) + 2 - length toks_sub)
          (pad_cell (pad_value_sub ds))"
      by (simp add: ds')
    from ctc(9) have e: "labels b ! i = row" "labels_sub b ! i = row_sub"
      "labels_seq_len b ! i = length toks" "labels_seq_len_sub b ! i = length toks_sub"
      by (simp_all add: example_def)
    from ctc(1,2) e r r_sub show thesis by (intro that(3)) (simp_all add: ds')
  qed
qed

lemma demo_eval_run:
  "make_batch demo_eval_ds demo_files [0] =
     (demo_eval_ds\<lparr>input_size := Some 4\<rparr>, Inr demo_eval_batch)"
  by code_simp

text \<open>
  The assignment \<^verbatim>\<open>inputs[i_batch, :frame_num, :] = data_i\<close> broadcasts a one-row
  array into an empty slice. So when the manifest claims no frame at all for the whole
  subset (\<open>T_max = 0\<close>) while a file holds one frame, a batch is returned whose
  recorded input length 1 exceeds the time dimension 0.
\<close>

lemma stale_manifest_run:
  "make_batch stale_ds demo_files [0] = (stale_ds\<lparr>input_size := Some 2\<rparr>, Inr stale_batch)"
  by code_simp

text \<open>
  Claim C3 (amended). For every example \<open>i\<close> of a returned batch:
  if the largest manifest \<open>frame_num\<close> of the subset is positive (so \<open>T_max \<ge> 1\<close>), then
  \<open>inputs_seq_len[i]\<close> is at most the time dimension of \<open>inputs\<close>;
  on a non-evaluation split every entry \<open>labels[i, j]\<close> with \<open>j \<ge> labels_seq_len[i]\<close>
  is the main task's pad value, and likewise for the sub task with its own pad value;
  on an evaluation split both label lengths are 0 and the entries with \<open>j \<ge> 1\<close> are
  the pad values.
\<close>

theorem make_batch_padding:
  assumes ok: "make_batch ds st data_indices = (ds', Inr b)" and i: "i < length data_indices"
  shows "(0 < Max (set (frame_nums ds data_indices)) \<longrightarrow>
           inputs_seq_len b ! i \<le> length (rows (inputs b ! i))) \<and>
         (\<not> is_test ds \<longrightarrow>
           (\<forall>j. labels_seq_len b ! i \<le> j \<and> j < length (labels b ! i) \<longrightarrow>
                labels b ! i ! j = pad_cell (pad_value ds)) \<and>
           (\<forall>j. labels_seq_len_sub b ! i \<le> j \<and> j < length (labels_sub b ! i) \<longrightarrow>
                labels_sub b ! i ! j = pad_cell (pad_value_sub ds))) \<and>
         (is_test ds \<longrightarrow>
           labels_seq_len b ! i = 0 \<and> labels_seq_len_sub b ! i = 0 \<and>
           (\<forall>j. 1 \<le> j \<and> j < length (labels b ! i) \<longrightarrow> labels b ! i ! j = pad_cell (pad_value ds)) \<and>
           (\<forall>j. 1 \<le> j \<and> j < length (labels_sub b ! i) \<longrightarrow>
                labels_sub b ! i ! j = pad_cell (pad_value_sub ds)))"
proof -
  have len: "0 < Max (set (frame_nums ds data_indices)) \<longrightarrow>
           inputs_seq_len b ! i \<le> length (rows (inputs b ! i))"
    using make_batch_seq_len [OF ok i] by blast
  from ok i have "(\<not> is_test ds \<longrightarrow>
           (\<forall>j. labels_seq_len b ! i \<le> j \<and> j < length (labels b ! i) \<longrightarrow>
                labels b ! i ! j = pad_cell (pad_value ds)) \<and>
           (\<forall>j. labels_seq_len_sub b ! i \<le> j \<and> j < length (labels_sub b ! i) \<longrightarrow>
                labels_sub b ! i ! j = pad_cell (pad_value_sub ds))) \<and>
         (is_test ds \<longrightarrow>
           labels_seq_len b ! i = 0 \<and> labels_seq_len_sub b ! i = 0 \<and>
           (\<forall>j. 1 \<le> j \<and> j < length (labels b ! i) \<longrightarrow> labels b ! i ! j = pad_cell (pad_value ds)) \<and>
           (\<forall>j. 1 \<le> j \<and> j < length (labels_sub b ! i) \<longrightarrow>
                labels_sub b ! i ! j = pad_cell (pad_value_sub ds)))"
  proof (cases rule: make_batch_rows)
    case (test u u_sub)
    then show ?thesis by (auto simp: nth_Cons')
  next
    case (attention toks toks_sub)
    have "\<And>j. labels_seq_len b ! i \<le> j \<Longrightarrow> j < length (labels b ! i) \<Longrightarrow>
             labels b ! i ! j = pad_cell (pad_value ds)"
      unfolding attention(3,4) by (rule sos_eos_row_pad) simp_all
    moreover have "\<And>j. labels_seq_len_sub b ! i \<le> j \<Longrightarrow> j < length (labels_sub b ! i) \<Longrightarrow>
             labels_sub b ! i ! j = pad_cell (pad_value_sub ds)"
      unfolding attention(5,6) by (rule sos_eos_row_pad) simp_all
    ultimately show ?thesis using attention(1) by blast
  next
    case (ctc toks toks_sub)
    have "\<And>j. labels_seq_len b ! i \<le> j \<Longrightarrow> j < length (labels b ! i) \<Longrightarrow>
             labels b ! i ! j = pad_cell (pad_value ds)"
      unfolding ctc(3,4) by (simp add: nth_append)
    moreover have "\<And>j. labels_seq_len_sub b ! i \<le> j \<Longrightarrow> j < length (labels_sub b ! i) \<Longrightarrow>
             labels_sub b ! i ! j = pad_cell (pad_value_sub ds)"
      unfolding ctc(5,6) by (simp add: nth_append)
    ultimately show ?thesis using ctc(1) by blast
  qed
  with len show ?thesis by blast
qed

theorem make_batch_padding_witness:
  "make_batch demo_ds demo_files [0, 1] = (demo_ds\<lparr>input_size := Some 4\<rparr>, Inr demo_batch) \<and>
   (1::nat) < length [0, 1 :: int] \<and>
   0 < Max (set (frame_nums demo_ds [0, 1])) \<and> \<not> is_test demo_ds \<and>
   inputs_seq_len demo_batch ! 1 \<le> length (rows (inputs demo_batch ! 1)) \<and>
   labels_seq_len demo_batch ! 1 \<le> 3 \<and> 3 < length (labels demo_batch ! 1) \<and>
   labels demo_batch ! 1 ! 3 = pad_cell (pad_value demo_ds) \<and>
   labels_seq_len_sub demo_batch ! 1 \<le> 4 \<and> 4 < length (labels_sub demo_batch ! 1) \<and>
   labels_sub demo_batch ! 1 ! 4 = pad_cell (pad_value_sub demo_ds) \<and>
   make_batch demo_eval_ds demo_files [0] =
     (demo_eval_ds\<lparr>input_size := Some 4\<rparr>, Inr demo_eval_batch) \<and>
   is_test demo_eval_ds \<and> (1::nat) \<le> 2 \<and> 2 < length (labels demo_eval_batch ! 0) \<and>
   labels_seq_len demo_eval_batch ! 0 = 0 \<and>
   labels demo_eval_batch ! 0 ! 2 = pad_cell (pad_value demo_eval_ds)"
proof -
  have h: "(1::nat) < length [0, 1 :: int]" "0 < Max (set (frame_nums demo_ds [0, 1]))"
    "\<not> is_test demo_ds"
    by (simp_all add: frame_nums_def demo_ds_def demo_df_def)
  have r: "labels_seq_len demo_batch ! 1 \<le> 3 \<and> 3 < length (labels demo_batch ! 1)"
    "labels_seq_len_sub demo_batch ! 1 \<le> 4 \<and> 4 < length (labels_sub demo_batch ! 1)"
    by (simp_all add: demo_batch_def)
  note p = make_batch_padding [OF demo_run h(1)]
  from p h(2) have a: "inputs_seq_len demo_batch ! 1 \<le> length (rows (inputs demo_batch ! 1))"
    by blast
  from p h(3) r have "labels demo_batch ! 1 ! 3 = pad_cell (pad_value demo_ds)"
    "labels_sub demo_batch ! 1 ! 4 = pad_cell (pad_value_sub demo_ds)"
    by blast+
  moreover
  have e: "(0::nat) < length [0 :: int]" "is_test demo_eval_ds"
    "(1::nat) \<le> 2 \<and> 2 < length (labels demo_eval_batch ! 0)"
    by (simp_all add: demo_eval_ds_def demo_eval_batch_def)
  note q = make_batch_padding [OF demo_eval_run e(1)]
  from q e(2,3) have "labels_seq_len demo_eval_batch ! 0 = 0"
    "labels demo_eval_batch ! 0 ! 2 = pad_cell (pad_value demo_eval_ds)"
    by blast+
  ultimately show ?thesis using demo_run demo_eval_run h r a e by simp
qed

text \<open>
  Claim C3 as stated fails on two returned batches. On an evaluation split with pad
  value \<open>None\<close> the label lengths are 0 while column 0 of each label row is not the
  pad value. On the subset whose manifest claims no frame, the recorded input length 1
  exceeds the time dimension 0 of \<open>inputs\<close>.
\<close>

theorem make_batch_padding_counterexample:
  "make_batch demo_eval_ds demo_files [0] =
     (demo_eval_ds\<lparr>input_size := Some 4\<rparr>, Inr demo_eval_batch) \<and>
   labels_seq_len demo_eval_batch ! 0 \<le> 0 \<and> 0 < length (labels demo_eval_batch ! 0) \<and>
   labels demo_eval_batch ! 0 ! 0 \<noteq> pad_cell (pad_value demo_eval_ds) \<and>
   labels_seq_len_sub demo_eval_batch ! 0 \<le> 0 \<and> 0 < length (labels_sub demo_eval_batch ! 0) \<and>
   labels_sub demo_eval_batch ! 0 ! 0 \<noteq> pad_cell (pad_value_sub demo_eval_ds) \<and>
   make_batch stale_ds demo_files [0] = (stale_ds\<lparr>input_size := Some 2\<rparr>, Inr stale_batch) \<and>
   length (rows (inputs stale_batch ! 0)) < inputs_seq_len stale_batch ! 0"
proof -
  have "labels_seq_len demo_eval_batch ! 0 \<le> 0 \<and> 0 < length (labels demo_eval_batch ! 0) \<and>
   labels demo_eval_batch ! 0 ! 0 \<noteq> pad_cell (pad_value demo_eval_ds) \<and>
   labels_seq_len_sub demo_eval_batch ! 0 \<le> 0 \<and> 0 < length (labels_sub demo_eval_batch ! 0) \<and>
   labels_sub demo_eval_batch ! 0 ! 0 \<noteq> pad_cell (pad_value_sub demo_eval_ds)"
    by (simp add: demo_eval_batch_def demo_eval_ds_def pad_cell_def)
  moreover have "length (rows (inputs stale_batch ! 0)) < inputs_seq_len stale_batch ! 0"
    by (simp add: stale_batch_def)
  ultimately show ?thesis using demo_eval_run stale_manifest_run by blast
qed

section \<open>Evaluation splits\<close>






section \<open>Configuration errors\<close>

lemma make_batch_Inr_save_format:
  assumes ok: "make_batch ds st data_indices = (ds', Inr b)"
  shows "save_format ds = ''numpy'' \<or> save_format ds = ''htk''"
proof -
  from ok obtain paths strs strs_sub isize where
    ds': "ds' = ds\<lparr>input_size := Some isize\<rparr>"
    and ne: "data_indices \<noteq> []"
    and loop: "for_range (set_values ds' st data_indices paths strs strs_sub)
       [0..<length data_indices]
       (init_batch ds' (length data_indices)
          (nat (ceil_div (Max (set (map (\<lambda>i. frame_num (the (map_of (df ds) i))) data_indices)))
                  (num_skip ds)))
          (isize * splice ds)
          (Max (set (map (\<lambda>x. length (split_on CHR '' '' x)) strs)) + 2)
          (Max (set (map (\<lambda>x. length (split_on CHR '' '' x)) strs_sub)) + 2)
          paths) = Inr b"
    by (rule make_batch_Inr)
  from ne have i: "0 < length data_indices" by simp
  have "\<exists>raw. load_data ds' st (paths ! 0) = Inr raw"
    using loop i by (cases rule: loop_cases) blast+
  then show ?thesis
    by (auto simp: load_data_def ds' split: if_splits)
qed

lemma make_batch_Inr_model_type:
  assumes ok: "make_batch ds st data_indices = (ds', Inr b)" and train: "\<not> is_test ds"
  shows "model_type ds = ''hierarchical_attention'' \<or> model_type ds = ''hierarchical_ctc''"
proof -
  from ok have "data_indices \<noteq> []" by (rule make_batch_Inr)
  then have i: "0 < length data_indices" by simp
  from ok i show ?thesis
  proof (cases rule: make_batch_rows)
    case (test u u_sub)
    with train show ?thesis by simp
  next
    case (attention toks toks_sub)
    then show ?thesis by simp
  next
    case (ctc toks toks_sub)
    then show ?thesis by simp
  qed
qed

lemma series_present:
  assumes "\<forall>i\<in>set is. map_of d i \<noteq> None"
  shows "series d col is = Inr (map (\<lambda>i. col (the (map_of d i))) is)"
  using assms by (induction "is") auto

text \<open>
  Claim C8. \<open>make_batch\<close> ends in an exception, and so returns no batch, for every
  index subset whenever \<open>save_format\<close> is neither \<^verbatim>\<open>numpy\<close> nor \<^verbatim>\<open>htk\<close>, and, on a
  non-evaluation split, whenever \<open>model_type\<close> is neither \<^verbatim>\<open>hierarchical_attention\<close>
  nor \<^verbatim>\<open>hierarchical_ctc\<close>. Nothing in \<open>make_batch\<close> catches the exception: it is the
  result of the call. With an unknown \<open>save_format\<close>, no cached \<open>input_size\<close> and all
  indices present, the exception is the TypeError of line 69 and the instance is unchanged.
\<close>

theorem make_batch_configuration_error:
  "(save_format ds \<noteq> ''numpy'' \<and> save_format ds \<noteq> ''htk'' \<longrightarrow>
      (\<exists>e. snd (make_batch ds st data_indices) = Inl e)) \<and>
   (\<not> is_test ds \<and> model_type ds \<noteq> ''hierarchical_attention'' \<and>
    model_type ds \<noteq> ''hierarchical_ctc'' \<longrightarrow>
      (\<exists>e. snd (make_batch ds st data_indices) = Inl e)) \<and>
   (save_format ds \<noteq> ''numpy'' \<and> save_format ds \<noteq> ''htk'' \<and> input_size ds = None \<and>
    (\<forall>i\<in>set data_indices. map_of (df ds) i \<noteq> None \<and> map_of (df_sub ds) i \<noteq> None) \<longrightarrow>
      make_batch ds st data_indices = (ds, Inl TypeError))"
proof (intro conjI impI)
  assume bad: "save_format ds \<noteq> ''numpy'' \<and> save_format ds \<noteq> ''htk''"
  show "\<exists>e. snd (make_batch ds st data_indices) = Inl e"
  proof (cases "snd (make_batch ds st data_indices)")
    case (Inl e)
    then show ?thesis by blast
  next
    case (Inr b)
    then have "make_batch ds st data_indices = (fst (make_batch ds st data_indices), Inr b)"
      by (simp add: prod_eq_iff)
    from make_batch_Inr_save_format [OF this] bad show ?thesis by simp
  qed
next
  assume bad: "\<not> is_test ds \<and> model_type ds \<noteq> ''hierarchical_attention'' \<and>
    model_type ds \<noteq> ''hierarchical_ctc''"
  show "\<exists>e. snd (make_batch ds st data_indices) = Inl e"
  proof (cases "snd (make_batch ds st data_indices)")
    case (Inl e)
    then show ?thesis by blast
  next
    case (Inr b)
    then have "make_batch ds st data_indices = (fst (make_batch ds st data_indices), Inr b)"
      by (simp add: prod_eq_iff)
    from make_batch_Inr_model_type [OF this] bad show ?thesis by simp
  qed
next
  assume a: "save_format ds \<noteq> ''numpy'' \<and> save_format ds \<noteq> ''htk'' \<and> input_size ds = None \<and>
    (\<forall>i\<in>set data_indices. map_of (df ds) i \<noteq> None \<and> map_of (df_sub ds) i \<noteq> None)"
  then have p: "\<forall>i\<in>set data_indices. map_of (df ds) i \<noteq> None"
    "\<forall>i\<in>set data_indices. map_of (df_sub ds) i \<noteq> None" by blast+
  from a have "cache_input_size ds st (map (\<lambda>i. input_path (the (map_of (df ds) i))) data_indices)
      = Inl TypeError"
    by (simp add: cache_input_size_def)
  then show "make_batch ds st data_indices = (ds, Inl TypeError)"
    by (simp add: make_batch_def series_present [OF p(1)] series_present [OF p(2)])
qed

theorem make_batch_configuration_error_witness:
  "save_format demo_hdf5_ds \<noteq> ''numpy'' \<and> save_format demo_hdf5_ds \<noteq> ''htk'' \<and>
   input_size demo_hdf5_ds = None \<and>
   make_batch demo_hdf5_ds demo_files [0, 1] = (demo_hdf5_ds, Inl TypeError) \<and>
   \<not> is_test demo_flat_ds \<and> model_type demo_flat_ds \<noteq> ''hierarchical_attention'' \<and>
   model_type demo_flat_ds \<noteq> ''hierarchical_ctc'' \<and>
   (\<exists>e. snd (make_batch demo_flat_ds demo_files [0, 1]) = Inl e) \<and>
   snd (make_batch demo_flat_ds demo_files [0, 1]) = Inl TypeError"
proof -
  have h: "save_format demo_hdf5_ds \<noteq> ''numpy'' \<and> save_format demo_hdf5_ds \<noteq> ''htk'' \<and>
     input_size demo_hdf5_ds = None \<and>
     (\<forall>i\<in>set [0, 1]. map_of (df demo_hdf5_ds) i \<noteq> None \<and>
                       map_of (df_sub demo_hdf5_ds) i \<noteq> None)"
    by (simp add: demo_hdf5_ds_def demo_ds_def demo_df_def demo_df_sub_def)
  have g: "\<not> is_test demo_flat_ds \<and> model_type demo_flat_ds \<noteq> ''hierarchical_attention'' \<and>
     model_type demo_flat_ds \<noteq> ''hierarchical_ctc''"
    by (simp add: demo_flat_ds_def demo_ds_def)
  have e: "snd (make_batch demo_flat_ds demo_files [0, 1]) = Inl TypeError"
    by code_simp
  note c = make_batch_configuration_error [of demo_hdf5_ds demo_files "[0, 1]"]
  note d = make_batch_configuration_error [of demo_flat_ds demo_files "[0, 1]"]
  from c h have "make_batch demo_hdf5_ds demo_files [0, 1] = (demo_hdf5_ds, Inl TypeError)"
    by blast
  moreover from d g have "\<exists>e. snd (make_batch demo_flat_ds demo_files [0, 1]) = Inl e"
    by blast
  ultimately show ?thesis using h g e by blast
qed

section \<open>Determinism\<close>

lemma cached_state:
  assumes "input_size ds = Some v"
  shows "fst (make_batch ds st data_indices) = ds"
  using assms
  by (auto simp: make_batch_def cache_input_size_def split: sum.splits)

lemma make_batch_state:
  "\<exists>v. fst (make_batch ds st data_indices) = ds\<lparr>input_size := v\<rparr> \<and>
       (v = input_size ds \<or> input_size ds = None \<and> v \<noteq> None)"
proof (cases "make_batch ds st data_indices")
  case (Pair ds' r)
  show ?thesis
  proof (cases "ds' = ds")
    case True
    with Pair show ?thesis by (intro exI [of _ "input_size ds"]) simp
  next
    case False
    with Pair obtain paths where "cache_input_size ds st paths = Inr ds'"
      by (auto simp: make_batch_def split: sum.splits)
    from cache_input_size_Inr [OF this] False obtain isize where
      "ds' = ds\<lparr>input_size := Some isize\<rparr>" "input_size ds = None"
      by (cases "input_size ds") auto
    with Pair show ?thesis by (intro exI [of _ "Some isize"]) simp
  qed
qed

lemma make_batch_repeat:
  "make_batch (fst (make_batch ds st data_indices)) st data_indices =
   make_batch ds st data_indices"
proof (cases "fst (make_batch ds st data_indices) = ds")
  case True
  then show ?thesis by simp
next
  case False
  then obtain paths strs strs_sub ds' where
    s: "series (df ds) input_path data_indices = Inr paths"
       "series (df ds) transcript data_indices = Inr strs"
       "series (df_sub ds) transcript data_indices = Inr strs_sub"
    and c: "cache_input_size ds st paths = Inr ds'"
    and m: "make_batch ds st data_indices =
              (ds', build_batch ds' st data_indices paths strs strs_sub)"
    by (auto simp: make_batch_def split: sum.splits)
  from cache_input_size_Inr [OF c] obtain isize where
    ds': "ds' = ds\<lparr>input_size := Some isize\<rparr>" by blast
  have c': "cache_input_size ds' st paths = Inr ds'"
    by (simp add: cache_input_size_def ds')
  have "make_batch ds' st data_indices =
          (ds', build_batch ds' st data_indices paths strs strs_sub)"
    using s c' by (simp add: make_batch_def ds')
  with m show ?thesis by simp
qed

text \<open>
  Claim C9. A second call of \<open>make_batch\<close> with the same indices on the instance the
  first call left behind (same dataframes, configuration and feature files; only the
  \<open>input_size\<close> cache may have been set by the first call) gives the same result in every
  component, the exception included. When the first call returned a batch, a call on
  any other index subset in between does not change what the second call returns.
\<close>

theorem make_batch_deterministic:
  "make_batch (fst (make_batch ds st data_indices)) st data_indices =
     make_batch ds st data_indices \<and>
   (\<forall>b. snd (make_batch ds st data_indices) = Inr b \<longrightarrow>
      snd (make_batch (fst (make_batch (fst (make_batch ds st data_indices)) st other))
             st data_indices) = Inr b)"
proof (intro conjI allI impI)
  show "make_batch (fst (make_batch ds st data_indices)) st data_indices =
     make_batch ds st data_indices"
    by (rule make_batch_repeat)
next
  fix b
  assume ok: "snd (make_batch ds st data_indices) = Inr b"
  then have "make_batch ds st data_indices = (fst (make_batch ds st data_indices), Inr b)"
    by (simp add: prod_eq_iff)
  then obtain isize where
    "fst (make_batch ds st data_indices) = ds\<lparr>input_size := Some isize\<rparr>"
    by (rule make_batch_Inr)
  then have "input_size (fst (make_batch ds st data_indices)) = Some isize" by simp
  then have "fst (make_batch (fst (make_batch ds st data_indices)) st other) =
      fst (make_batch ds st data_indices)"
    by (rule cached_state)
  with ok show "snd (make_batch (fst (make_batch (fst (make_batch ds st data_indices)) st other))
             st data_indices) = Inr b"
    by (simp add: make_batch_repeat)
qed

theorem make_batch_deterministic_witness:
  "snd (make_batch demo_ds demo_files [0, 1]) = Inr demo_batch \<and>
   make_batch (fst (make_batch demo_ds demo_files [0, 1])) demo_files [0, 1] =
     (demo_ds\<lparr>input_size := Some 4\<rparr>, Inr demo_batch) \<and>
   snd (make_batch (fst (make_batch (fst (make_batch demo_ds demo_files [0, 1])) demo_files [1]))
          demo_files [0, 1]) = Inr demo_batch"
proof -
  have r: "snd (make_batch demo_ds demo_files [0, 1]) = Inr demo_batch"
    by (simp add: demo_run)
  note d = make_batch_deterministic [of demo_ds demo_files "[0, 1]" "[1]"]
  from d have "make_batch (fst (make_batch demo_ds demo_files [0, 1])) demo_files [0, 1] =
     (demo_ds\<lparr>input_size := Some 4\<rparr>, Inr demo_batch)"
    by (simp add: demo_run)
  moreover from d r
  have "snd (make_batch (fst (make_batch (fst (make_batch demo_ds demo_files [0, 1]))
          demo_files [1])) demo_files [0, 1]) = Inr demo_batch"
    by blast
  ultimately show ?thesis using r by blast
qed

section \<open>Frame condition\<close>

text \<open>
  Claim C10. After every call of \<open>make_batch\<close>, whether it returns or raises, the
  instance has the same dataframes and the same configuration attributes as before;
  only \<open>input_size\<close> may differ. Once \<open>input_size\<close> is set no call changes the instance
  at all, and every call that returns a batch leaves it set.
\<close>

theorem make_batch_frame:
  "same_corpus ds (fst (make_batch ds st data_indices)) \<and>
   fst (make_batch ds st data_indices) =
     ds\<lparr>input_size := input_size (fst (make_batch ds st data_indices))\<rparr> \<and>
   (\<forall>v. input_size ds = Some v \<longrightarrow> fst (make_batch ds st data_indices) = ds) \<and>
   (\<forall>b. snd (make_batch ds st data_indices) = Inr b \<longrightarrow>
      input_size (fst (make_batch ds st data_indices)) \<noteq> None)"
proof (intro conjI allI impI)
  from make_batch_state [of ds st data_indices] obtain v where
    v: "fst (make_batch ds st data_indices) = ds\<lparr>input_size := v\<rparr>" by blast
  then show "fst (make_batch ds st data_indices) =
     ds\<lparr>input_size := input_size (fst (make_batch ds st data_indices))\<rparr>"
    by simp
  from v show "same_corpus ds (fst (make_batch ds st data_indices))"
    by (simp add: same_corpus_def)
next
  fix v assume "input_size ds = Some v"
  then show "fst (make_batch ds st data_indices) = ds" by (rule cached_state)
next
  fix b assume "snd (make_batch ds st data_indices) = Inr b"
  then have "make_batch ds st data_indices = (fst (make_batch ds st data_indices), Inr b)"
    by (simp add: prod_eq_iff)
  then obtain isize where
    "fst (make_batch ds st data_indices) = ds\<lparr>input_size := Some isize\<rparr>"
    by (rule make_batch_Inr)
  then show "input_size (fst (make_batch ds st data_indices)) \<noteq> None" by simp
qed

theorem make_batch_frame_witness:
  "snd (make_batch demo_ds demo_files [0, 1]) = Inr demo_batch \<and>
   input_size demo_ds = None \<and>
   input_size (fst (make_batch demo_ds demo_files [0, 1])) \<noteq> None \<and>
   same_corpus demo_ds (fst (make_batch demo_ds demo_files [0, 1])) \<and>
   input_size (demo_ds\<lparr>input_size := Some 4\<rparr>) = Some 4 \<and>
   fst (make_batch (demo_ds\<lparr>input_size := Some 4\<rparr>) demo_files [1]) =
     demo_ds\<lparr>input_size := Some 4\<rparr>"
proof -
  have r: "snd (make_batch demo_ds demo_files [0, 1]) = Inr demo_batch"
    by (simp add: demo_run)
  have n: "input_size demo_ds = None" by (simp add: demo_ds_def)
  have c: "input_size (demo_ds\<lparr>input_size := Some 4\<rparr>) = Some 4" by simp
  note f = make_batch_frame [of demo_ds demo_files "[0, 1]"]
  note g = make_batch_frame [of "demo_ds\<lparr>input_size := Some 4\<rparr>" demo_files "[1]"]
  from f r have "input_size (fst (make_batch demo_ds demo_files [0, 1])) \<noteq> None" by blast
  moreover from f have "same_corpus demo_ds (fst (make_batch demo_ds demo_files [0, 1]))"
    by blast
  moreover from g c have "fst (make_batch (demo_ds\<lparr>input_size := Some 4\<rparr>) demo_files [1]) =
     demo_ds\<lparr>input_size := Some 4\<rparr>" by blast
  ultimately show ?thesis using r n c by blast
qed

section \<open>The utterance filter\<close>

lemma dev_not_eval: "\<not> contains ''eval'' ''dev''"
  by code_simp

lemma keep_iff:
  "(\<not> (length (split_on CHR '' '' (transcript x)) \<le> (if contains ''word'' label_type then 3 else 24)
        \<and> frame_num x \<ge> 1000) \<and> frame_num x \<le> 1580) = (\<not> drop_condition label_type x)"
  by (auto simp: drop_condition_def token_count_def)

lemma remove_inappropriate_filter:
  "\<not> contains ''eval'' data_type \<Longrightarrow>
   remove_inappropriate data_type label_type d =
     (if data_type = ''dev''
      then take 4000 (filter (\<lambda>(i, x). \<not> drop_condition label_type x) d)
      else filter (\<lambda>(i, x). \<not> drop_condition label_type x) d)"
proof -
  assume ne: "\<not> contains ''eval'' data_type"
  have "filter (\<lambda>(i, x). frame_num x \<le> 1580)
          (filter (\<lambda>(i, x). \<not> (length (split_on CHR '' '' (transcript x))
              \<le> (if contains ''word'' label_type then 3 else 24) \<and> frame_num x \<ge> 1000)) d)
        = filter (\<lambda>(i, x). \<not> drop_condition label_type x) d"
    by (simp add: case_prod_unfold keep_iff [symmetric] conj_commute)
  with ne show ?thesis
    by (simp add: remove_inappropriate_def Let_def split: if_splits)
qed

lemma numbered_mem: "((int k, u) \<in> set (numbered n u)) = (k < n)"
  by (auto simp: numbered_def)

lemma numbered_filter:
  "\<not> drop_condition label_type u \<Longrightarrow>
   filter (\<lambda>(i, x). \<not> drop_condition label_type x) (numbered n u) = numbered n u"
  by (simp add: numbered_def filter_map comp_def)

lemma numbered_take: "m \<le> n \<Longrightarrow> take m (numbered n u) = numbered m u"
  by (simp add: numbered_def take_map take_upt)

lemma short_utt_kept: "\<not> drop_condition label_type short_utt"
  by (simp add: drop_condition_def short_utt_def)

text \<open>
  Claim C5 (amended). On an evaluation split (\<^verbatim>\<open>'eval' in data_type\<close>) every row is
  kept. On a non-evaluation split other than \<^verbatim>\<open>dev\<close> the rows kept are, in manifest
  order, exactly those that do not satisfy the drop condition: (token count \<open>\<le> 3\<close> for
  word-level label types, \<open>\<le> 24\<close> otherwise, and \<open>frame_num \<ge> 1000\<close>) or
  \<open>frame_num > 1580\<close>. On the \<^verbatim>\<open>dev\<close> split the rows kept are the first 4000 of
  those.
\<close>

theorem remove_inappropriate_spec:
  "(contains ''eval'' data_type \<longrightarrow> remove_inappropriate data_type label_type d = d) \<and>
   (\<not> contains ''eval'' data_type \<and> data_type \<noteq> ''dev'' \<longrightarrow>
      remove_inappropriate data_type label_type d =
        filter (\<lambda>(i, x). \<not> drop_condition label_type x) d \<and>
      (\<forall>i x. ((i, x) \<in> set (remove_inappropriate data_type label_type d)) =
               ((i, x) \<in> set d \<and> \<not> drop_condition label_type x))) \<and>
   (data_type = ''dev'' \<longrightarrow>
      remove_inappropriate data_type label_type d =
        take 4000 (filter (\<lambda>(i, x). \<not> drop_condition label_type x) d))"
proof (intro conjI impI)
  assume "contains ''eval'' data_type"
  then show "remove_inappropriate data_type label_type d = d"
    by (simp add: remove_inappropriate_def)
next
  assume a: "\<not> contains ''eval'' data_type \<and> data_type \<noteq> ''dev''"
  then show f: "remove_inappropriate data_type label_type d =
        filter (\<lambda>(i, x). \<not> drop_condition label_type x) d"
    by (simp add: remove_inappropriate_filter)
  show "\<forall>i x. ((i, x) \<in> set (remove_inappropriate data_type label_type d)) =
               ((i, x) \<in> set d \<and> \<not> drop_condition label_type x)"
    unfolding f by auto
next
  assume "data_type = ''dev''"
  with dev_not_eval show "remove_inappropriate data_type label_type d =
        take 4000 (filter (\<lambda>(i, x). \<not> drop_condition label_type x) d)"
    by (simp add: remove_inappropriate_filter)
qed

theorem remove_inappropriate_spec_witness:
  "contains ''eval'' ''eval2000_swbd'' \<and>
   remove_inappropriate ''eval2000_swbd'' ''word_freq5'' demo_manifest = demo_manifest \<and>
   \<not> contains ''eval'' ''train'' \<and> ''train'' \<noteq> ''dev'' \<and>
   remove_inappropriate ''train'' ''word_freq5'' demo_manifest =
     [(1, \<lparr>frame_num = 1200, input_path = ''/d/b.npy'', transcript = ''5 9 2 7''\<rparr>)] \<and>
   remove_inappropriate ''train'' ''character'' demo_manifest = [] \<and>
   remove_inappropriate ''dev'' ''word_freq5'' demo_manifest =
     [(1, \<lparr>frame_num = 1200, input_path = ''/d/b.npy'', transcript = ''5 9 2 7''\<rparr>)]"
proof -
  have e: "contains ''eval'' ''eval2000_swbd''" by code_simp
  have t: "\<not> contains ''eval'' ''train'' \<and> ''train'' \<noteq> ''dev''" by code_simp
  have w: "contains ''word'' ''word_freq5''" "\<not> contains ''word'' ''character''" by code_simp+
  have f: "filter (\<lambda>(i, x). \<not> drop_condition ''word_freq5'' x) demo_manifest =
       [(1, \<lparr>frame_num = 1200, input_path = ''/d/b.npy'', transcript = ''5 9 2 7''\<rparr>)]"
     "filter (\<lambda>(i, x). \<not> drop_condition ''character'' x) demo_manifest = []"
    by (simp_all add: demo_manifest_def drop_condition_def token_count_def w)
  note a = remove_inappropriate_spec [of "''eval2000_swbd''" "''word_freq5''" demo_manifest]
  note b = remove_inappropriate_spec [of "''train''" "''word_freq5''" demo_manifest]
  note c = remove_inappropriate_spec [of "''train''" "''character''" demo_manifest]
  note d = remove_inappropriate_spec [of "''dev''" "''word_freq5''" demo_manifest]
  from a e have "remove_inappropriate ''eval2000_swbd'' ''word_freq5'' demo_manifest = demo_manifest"
    by blast
  moreover from b t have "remove_inappropriate ''train'' ''word_freq5'' demo_manifest =
     [(1, \<lparr>frame_num = 1200, input_path = ''/d/b.npy'', transcript = ''5 9 2 7''\<rparr>)]"
    unfolding f by blast
  moreover from c t have "remove_inappropriate ''train'' ''character'' demo_manifest = []"
    unfolding f by blast
  moreover from d have "remove_inappropriate ''dev'' ''word_freq5'' demo_manifest =
     [(1, \<lparr>frame_num = 1200, input_path = ''/d/b.npy'', transcript = ''5 9 2 7''\<rparr>)]"
    unfolding f by simp
  ultimately show ?thesis using e t by blast
qed

text \<open>
  Claim C5 as stated fails on the \<^verbatim>\<open>dev\<close> split: of 4001 utterances none of which
  meets the drop condition, the last one is dropped by the truncation of line 95.
\<close>

theorem remove_inappropriate_counterexample:
  "\<not> contains ''eval'' ''dev'' \<and>
   (4000, short_utt) \<in> set (numbered 4001 short_utt) \<and>
   \<not> drop_condition ''word_freq5'' short_utt \<and>
   (4000, short_utt) \<notin> set (remove_inappropriate ''dev'' ''word_freq5'' (numbered 4001 short_utt))"
proof -
  have "remove_inappropriate ''dev'' ''word_freq5'' (numbered 4001 short_utt)
          = numbered 4000 short_utt"
    by (simp add: remove_inappropriate_filter dev_not_eval numbered_filter short_utt_kept
          numbered_take)
  moreover have "(int 4000, short_utt) \<in> set (numbered 4001 short_utt)"
    "(int 4000, short_utt) \<notin> set (numbered 4000 short_utt)"
    unfolding numbered_mem by simp_all
  ultimately show ?thesis using dev_not_eval short_utt_kept by simp
qed

section \<open>The width of the inputs tensor\<close>

lemma transformed_ncols [simp]:
  "ncols (transformed ds raw) = ncols raw * num_stack ds * splice ds"
  by (simp add: transformed_def)

lemma cache_input_size_first:
  assumes "cache_input_size ds st paths = Inr ds'" and "input_size ds = None"
  shows "\<exists>m. paths \<noteq> [] \<and> load_data ds st (paths ! 0) = Inr m \<and>
             ds' = ds\<lparr>input_size := Some (ncols m * num_stack ds * splice ds)\<rparr>"
  using assms
  by (cases paths)
     (auto simp: cache_input_size_def load_data_def and_then_eq_Inr split: if_splits)

lemma load_data_cache_indep [simp]:
  "load_data (ds\<lparr>input_size := v\<rparr>) st p = load_data ds st p"
  by (simp add: load_data_def)

text \<open>
  The first batch of an instance, in general: the cache holds
  \<open>F = raw width * num_stack * splice\<close>, which is also the width of every transformed
  array, but the planes of \<open>inputs\<close> are allocated \<open>F * splice\<close> wide. The write of
  line 116 then only succeeds when \<open>splice \<le> 1\<close> or the features are empty.
\<close>

lemma first_batch_width:
  assumes ok: "make_batch ds (st :: ('a::zero) storage) data_indices = (ds', Inr b)"
    and fresh: "input_size ds = None"
  shows "\<exists>m :: 'a ndarray.
             load_data ds st (input_path (the (map_of (df ds) (data_indices ! 0)))) = Inr m \<and>
             input_size ds' = Some (ncols m * num_stack ds * splice ds) \<and>
             ncols (inputs b ! 0) = ncols m * num_stack ds * splice ds * splice ds \<and>
             ncols (transformed ds m) = ncols m * num_stack ds * splice ds \<and>
             (splice ds \<le> 1 \<or> ncols m * num_stack ds = 0)"
proof -
  from ok obtain paths strs strs_sub isize where
    sp: "series (df ds) input_path data_indices = Inr paths"
    and c: "cache_input_size ds st paths = Inr ds'"
    and ds': "ds' = ds\<lparr>input_size := Some isize\<rparr>"
    and ne: "data_indices \<noteq> []"
    and loop: "for_range (set_values ds' st data_indices paths strs strs_sub)
       [0..<length data_indices]
       (init_batch ds' (length data_indices)
          (nat (ceil_div (Max (set (map (\<lambda>i. frame_num (the (map_of (df ds) i))) data_indices)))
                  (num_skip ds)))
          (isize * splice ds)
          (Max (set (map (\<lambda>x. length (split_on CHR '' '' x)) strs)) + 2)
          (Max (set (map (\<lambda>x. length (split_on CHR '' '' x)) strs_sub)) + 2)
          paths) = Inr b"
    by (rule make_batch_Inr)
  from cache_input_size_first [OF c fresh] ds' obtain m where
    m: "load_data ds st (paths ! 0) = Inr m"
    and isize: "isize = ncols m * num_stack ds * splice ds"
    by (auto simp: dataset.ext_inject dataset.update_convs
             dest: arg_cong [where f = input_size])
  from ne have i: "0 < length data_indices" by simp
  have "\<exists>plane. setitem_prefix (np_zeros
          (nat (ceil_div (Max (set (map (\<lambda>i. frame_num (the (map_of (df ds) i))) data_indices)))
                  (num_skip ds))) (isize * splice ds))
          (length (rows (transformed ds' m))) (transformed ds' m) = Inr plane \<and>
        inputs b ! 0 = plane"
    using loop i
    by (cases rule: loop_cases) (auto simp: ds' m example_def)
  then obtain plane where
    p: "setitem_prefix (np_zeros
          (nat (ceil_div (Max (set (map (\<lambda>i. frame_num (the (map_of (df ds) i))) data_indices)))
                  (num_skip ds))) (isize * splice ds))
          (length (rows (transformed ds' m))) (transformed ds' m) = Inr plane"
    and b0: "inputs b ! 0 = plane"
    by blast
  from setitem_prefix_shape [OF p] b0
  have w: "ncols (inputs b ! 0) = isize * splice ds" by simp
  from setitem_prefix_width [OF p]
  have "ncols m * num_stack ds * splice ds = isize * splice ds \<or>
        ncols m * num_stack ds * splice ds = 1"
    by (simp add: ds')
  then have "splice ds \<le> 1 \<or> ncols m * num_stack ds = 0"
    unfolding isize by (cases "ncols m * num_stack ds = 0") auto
  moreover from ne have "paths ! 0 = input_path (the (map_of (df ds) (data_indices ! 0)))"
    by (simp add: series_map [OF sp])
  ultimately show ?thesis using w isize ds' m by (intro exI [of _ m]) simp
qed

text \<open>
  Claim C4, at a failing input. With \<open>splice = 3\<close>, \<open>num_stack = 2\<close> and feature files
  two columns wide, the first call caches \<open>input_size = 2 * 2 * 3 = 12\<close>, which is the
  width of the transformed array of the first utterance. The planes of \<open>inputs\<close> are
  allocated \<open>input_size * splice = 36\<close> columns wide (line 86), the 12-column array does
  not broadcast into them (line 116), and the call raises ValueError: no batch with
  feature width \<open>F = 12\<close> is built.
\<close>

theorem make_batch_splice_width:
  "splice demo_splice_ds = 3 \<and> input_size demo_splice_ds = None \<and>
   load_data demo_splice_ds demo_files ''/d/a_1.npy''
     = Inr \<lparr>ncols = 2, rows = [[1, 2], [3, 4], [5, 6]]\<rparr> \<and>
   ncols (transformed demo_splice_ds \<lparr>ncols = 2, rows = [[1, 2], [3, 4], [5 :: int, 6]]\<rparr>) = 12 \<and>
   make_batch demo_splice_ds demo_files [0, 1]
     = (demo_splice_ds\<lparr>input_size := Some 12\<rparr>, Inl ValueError)"
proof -
  have "make_batch demo_splice_ds demo_files [0, 1]
     = (demo_splice_ds\<lparr>input_size := Some 12\<rparr>, Inl ValueError)"
    by code_simp
  moreover have "load_data demo_splice_ds demo_files ''/d/a_1.npy''
     = Inr \<lparr>ncols = 2, rows = [[1, 2], [3, 4], [5, 6]]\<rparr>"
    by code_simp
  moreover have "splice demo_splice_ds = 3" "input_size demo_splice_ds = None"
    "num_stack demo_splice_ds = 2"
    by (simp_all add: demo_splice_ds_def demo_ds_def)
  ultimately show ?thesis by simp
qed

end
